theory Spec2Isabelle
  imports Main
begin

section \<open>Python exceptions\<close>

text \<open>
  Every exception the modelled code can meet is a value. \<open>KeyError\<close> is what
  \<open>OrderedDict.move_to_end\<close>, \<open>OrderedDict.__getitem__\<close> and \<open>OrderedDict.popitem\<close>
  raise; \<open>ValueError\<close> is raised by \<open>setup_qa_chain\<close>; \<open>Exception\<close> stands for any
  exception of class \<open>Exception\<close> raised by an external library (PDF parsers, OCR,
  FAISS, the embedding model, the language model). Signals outside the class
  \<open>Exception\<close> (\<open>KeyboardInterrupt\<close>, \<open>SystemExit\<close>) are not modelled.
  A computation that may raise has type \<open>py_exception + 'a\<close>, with \<open>Inl\<close> the raise.
\<close>

datatype py_exception = KeyError | ValueError string | Exception string

section \<open>\<open>collections.OrderedDict\<close>\<close>

text \<open>
  An ordered dictionary is the list of its (key, value) pairs in iteration order: the
  front of the list is the oldest position, the back the newest. The keys of a
  dictionary are distinct.
\<close>

type_synonym ('k, 'v) ordered_dict = "('k \<times> 'v) list"

definition od_keys :: "('k, 'v) ordered_dict \<Rightarrow> 'k list" where
  "od_keys xs = map fst xs"

definition od_contains :: "('k, 'v) ordered_dict \<Rightarrow> 'k \<Rightarrow> bool" where
  "od_contains xs k = (k \<in> set (od_keys xs))"

definition od_getitem :: "('k, 'v) ordered_dict \<Rightarrow> 'k \<Rightarrow> py_exception + 'v" where
  "od_getitem xs k = (case map_of xs k of None \<Rightarrow> Inl KeyError | Some v \<Rightarrow> Inr v)"

text \<open>\<open>move_to_end(key)\<close>: the entry goes to the back; a missing key raises.\<close>

definition od_move_to_end ::
  "('k, 'v) ordered_dict \<Rightarrow> 'k \<Rightarrow> py_exception + ('k, 'v) ordered_dict" where
  "od_move_to_end xs k =
     (case map_of xs k of
        None \<Rightarrow> Inl KeyError
      | Some v \<Rightarrow> Inr (filter (\<lambda>e. fst e \<noteq> k) xs @ [(k, v)]))"

text \<open>
  \<open>d[key] = value\<close>: an existing key keeps its position and takes the new value, a new
  key is appended at the back.
\<close>

fun od_setitem :: "('k, 'v) ordered_dict \<Rightarrow> 'k \<Rightarrow> 'v \<Rightarrow> ('k, 'v) ordered_dict" where
  "od_setitem [] k v = [(k, v)]"
| "od_setitem (e # xs) k v = (if fst e = k then (k, v) # xs else e # od_setitem xs k v)"

text \<open>\<open>popitem(last=False)\<close>: removes and returns the front pair; raises when empty.\<close>

definition od_popitem_first ::
  "('k, 'v) ordered_dict \<Rightarrow> py_exception + (('k \<times> 'v) \<times> ('k, 'v) ordered_dict)" where
  "od_popitem_first xs = (case xs of [] \<Rightarrow> Inl KeyError | e # xs' \<Rightarrow> Inr (e, xs'))"

section \<open>\<open>LRUCache\<close>\<close>

text \<open>
  \<open>class LRUCache(OrderedDict)\<close>: the dictionary itself (\<open>items\<close>) and the attribute
  \<open>capacity\<close>, a Python integer given to the constructor.
\<close>

record ('k, 'v) LRUCache =
  items :: "('k, 'v) ordered_dict"
  capacity :: int

definition LRUCache_init :: "int \<Rightarrow> ('k, 'v) LRUCache" where
  "LRUCache_init cap = \<lparr>items = [], capacity = cap\<rparr>"

definition len :: "('k, 'v) LRUCache \<Rightarrow> int" where
  "len c = int (length (items c))"

text \<open>
  \<open>get(key)\<close> returns Python's \<open>None\<close> (here \<open>None\<close>) for a missing key, and otherwise
  moves the key to the back and returns its value. The result carries the cache
  after the call.
\<close>

definition get ::
  "('k, 'v) LRUCache \<Rightarrow> 'k \<Rightarrow> py_exception + ('v option \<times> ('k, 'v) LRUCache)" where
  "get c key =
     (if \<not> od_contains (items c) key then Inr (None, c)
      else case od_move_to_end (items c) key of
             Inl e \<Rightarrow> Inl e
           | Inr xs \<Rightarrow>
               (case od_getitem xs key of
                  Inl e \<Rightarrow> Inl e
                | Inr v \<Rightarrow> Inr (Some v, c\<lparr>items := xs\<rparr>)))"

text \<open>
  \<open>put(key, value)\<close> in its two halves: \<open>put_insert\<close> is the source's
  \<open>if key in self: self.move_to_end(key)\<close> followed by \<open>self[key] = value\<close>;
  \<open>put_evict\<close> is \<open>if len(self) > self.capacity: self.popitem(last=False)\<close>.
  The cache between the two halves is the state of the object after the assignment
  and before the length test.
\<close>

definition put_insert ::
  "('k, 'v) LRUCache \<Rightarrow> 'k \<Rightarrow> 'v \<Rightarrow> py_exception + ('k, 'v) LRUCache" where
  "put_insert c key val =
     (case (if od_contains (items c) key then od_move_to_end (items c) key
            else Inr (items c)) of
        Inl e \<Rightarrow> Inl e
      | Inr xs \<Rightarrow> Inr (c\<lparr>items := od_setitem xs key val\<rparr>))"

definition put_evict :: "('k, 'v) LRUCache \<Rightarrow> py_exception + ('k, 'v) LRUCache" where
  "put_evict c =
     (if len c > capacity c then
        (case od_popitem_first (items c) of
           Inl e \<Rightarrow> Inl e
         | Inr (e, xs) \<Rightarrow> Inr (c\<lparr>items := xs\<rparr>))
      else Inr c)"

definition put ::
  "('k, 'v) LRUCache \<Rightarrow> 'k \<Rightarrow> 'v \<Rightarrow> py_exception + ('k, 'v) LRUCache" where
  "put c key val =
     (case put_insert c key val of Inl e \<Rightarrow> Inl e | Inr c' \<Rightarrow> put_evict c')"

text \<open>Sequences of cache operations; the run stops at the first raise.\<close>

datatype ('k, 'v) cache_op = Get 'k | Put 'k 'v

fun run_ops ::
  "('k, 'v) LRUCache \<Rightarrow> ('k, 'v) cache_op list \<Rightarrow> py_exception + ('k, 'v) LRUCache" where
  "run_ops c [] = Inr c"
| "run_ops c (Get k # ops) =
     (case get c k of Inl e \<Rightarrow> Inl e | Inr (r, c') \<Rightarrow> run_ops c' ops)"
| "run_ops c (Put k v # ops) =
     (case put c k v of Inl e \<Rightarrow> Inl e | Inr c' \<Rightarrow> run_ops c' ops)"

fun put_keys :: "('k, 'v) cache_op list \<Rightarrow> 'k list" where
  "put_keys [] = []"
| "put_keys (Get k # ops) = put_keys ops"
| "put_keys (Put k v # ops) = k # put_keys ops"

fun get_keys :: "('k, 'v) cache_op list \<Rightarrow> 'k list" where
  "get_keys [] = []"
| "get_keys (Get k # ops) = k # get_keys ops"
| "get_keys (Put k v # ops) = get_keys ops"

text \<open>The dictionary invariant: no key occurs twice.\<close>

definition wf_cache :: "('k, 'v) LRUCache \<Rightarrow> bool" where
  "wf_cache c = distinct (od_keys (items c))"

section \<open>Strings\<close>

text \<open>
  A Python string is the list of its characters; a \<open>char\<close> is a code point below 256.
  \<open>py_isspace\<close> is \<open>str.isspace\<close> on one character of that range: the characters
  U+0009 to U+000D, U+001C to U+0020, U+0085 and U+00A0. \<open>py_strip\<close> is
  \<open>str.strip()\<close> with no argument, and a string is truthy when it is not empty.
\<close>

definition py_isspace :: "char \<Rightarrow> bool" where
  "py_isspace ch =
     (let n = (of_char ch :: nat)
      in (9 \<le> n \<and> n \<le> 13) \<or> (28 \<le> n \<and> n \<le> 32) \<or> n = 133 \<or> n = 160)"

definition py_strip :: "string \<Rightarrow> string" where
  "py_strip s = rev (dropWhile py_isspace (rev (dropWhile py_isspace s)))"

section \<open>Paths\<close>

text \<open>
  \<open>os.path.join\<close> with two arguments, as \<open>posixpath.join\<close> computes it: an absolute
  second argument replaces the first, otherwise the two are put together with exactly
  one separator between them.
\<close>

definition os_path_join :: "string \<Rightarrow> string \<Rightarrow> string" where
  "os_path_join a b =
     (if b \<noteq> [] \<and> hd b = CHR ''/'' then b
      else if a = [] \<or> last a = CHR ''/'' then a @ b
      else a @ ''/'' @ b)"

section \<open>Documents and the external libraries\<close>

text \<open>
  A langchain \<open>Document\<close>: its \<open>page_content\<close> and the metadata entries the program
  reads or writes (\<open>source\<close>, \<open>page\<close>, and \<open>company_number\<close>, absent until the
  pipeline sets it).
\<close>

record document =
  page_content :: string
  source :: string
  page :: nat
  company_number :: "string option"

text \<open>
  A FAISS vector store is represented by the documents in its docstore; the vectors
  are a function of them and of the fixed embedding model.
\<close>

type_synonym vstore = "document list"

text \<open>A page object of \<open>pypdf\<close> and a rendered page image are opaque values.\<close>

type_synonym pdf_page = string
type_synonym image = string

text \<open>The prompt given to the language model: the retrieved context and the question.\<close>

record prompt =
  prompt_context :: "document list"
  prompt_question :: string

text \<open>
  Everything outside the program. The state of the disk is a value of an
  unspecified type \<open>'w\<close>; the operating system and the libraries are functions
  given with the environment, and each call either returns or raises. Nothing is
  fixed about how paths are resolved, which files exist or which calls fail: a
  property of the program holds for every such environment, or names the law of
  the file system it relies on.

  \<^item> \<open>DOWNLOAD_FOLDER\<close>, \<open>VECTOR_STORE_PATH\<close>: the two module constants, computed from the
    location of the source file.
  \<^item> \<open>glob_glob w pattern\<close>: what \<open>glob.glob(pattern)\<close> returns on the disk \<open>w\<close>, or raises
    (\<open>ValueError\<close> for a pattern with an embedded null character).
  \<^item> \<open>os_path_exists w path\<close>: \<open>os.path.exists(path)\<close>, which never raises.
  \<^item> \<open>os_makedirs w path\<close>: \<open>os.makedirs(path, exist_ok=True)\<close>: the exception raised, if
    any, and the disk after the call.
  \<^item> \<open>FAISS_save_local w store path\<close>: \<open>store.save_local(path)\<close>, likewise.
  \<^item> \<open>FAISS_load_local w path\<close>: \<open>FAISS.load_local(path, ...)\<close>.
  \<^item> \<open>embed_documents_error chunks\<close>: the exception, if any, that embedding the chunks
    raises inside \<open>FAISS.from_documents\<close>.
  \<^item> the PDF libraries, the text splitter, the distance of the similarity search, the
    retriever and the language model.
\<close>

record 'w env =
  DOWNLOAD_FOLDER :: string
  VECTOR_STORE_PATH :: string
  glob_glob :: "'w \<Rightarrow> string \<Rightarrow> py_exception + string list"
  os_path_exists :: "'w \<Rightarrow> string \<Rightarrow> bool"
  os_makedirs :: "'w \<Rightarrow> string \<Rightarrow> py_exception option \<times> 'w"
  FAISS_save_local :: "'w \<Rightarrow> vstore \<Rightarrow> string \<Rightarrow> py_exception option \<times> 'w"
  FAISS_load_local :: "'w \<Rightarrow> string \<Rightarrow> py_exception + vstore"
  PyPDFLoader_load :: "string \<Rightarrow> py_exception + document list"
  PDFPlumberLoader_load :: "string \<Rightarrow> py_exception + document list"
  PdfReader_pages :: "string \<Rightarrow> py_exception + pdf_page list"
  extract_text :: "pdf_page \<Rightarrow> py_exception + string"
  convert_from_path :: "string \<Rightarrow> py_exception + image list"
  image_to_string :: "image \<Rightarrow> py_exception + string"
  split_text :: "string \<Rightarrow> string list"
  embed_documents_error :: "document list \<Rightarrow> py_exception option"
  distance :: "string \<Rightarrow> string \<Rightarrow> int"
  retriever_error :: "string \<Rightarrow> py_exception option"
  llm_invoke :: "prompt \<Rightarrow> py_exception + string"

definition FAISS_from_documents :: "'w env \<Rightarrow> document list \<Rightarrow> py_exception + vstore" where
  "FAISS_from_documents E chunks =
     (case embed_documents_error E chunks of Some e \<Rightarrow> Inl e | None \<Rightarrow> Inr chunks)"

text \<open>
  \<open>RecursiveCharacterTextSplitter.split_documents\<close>: every piece of a document's text
  becomes a document with a copy of that document's metadata.
\<close>

definition split_documents :: "'w env \<Rightarrow> document list \<Rightarrow> document list" where
  "split_documents E docs =
     concat (map (\<lambda>doc. map (\<lambda>t. doc\<lparr>page_content := t\<rparr>) (split_text E (page_content doc))) docs)"

text \<open>\<open>similarity_search\<close>: the \<open>k\<close> documents of the store nearest to the question.\<close>

definition similarity_search :: "'w env \<Rightarrow> vstore \<Rightarrow> string \<Rightarrow> nat \<Rightarrow> document list" where
  "similarity_search E vs q k = take k (sort_key (\<lambda>doc. distance E q (page_content doc)) vs)"


section \<open>\<open>PDFProcessor._load_pdf_with_fallbacks\<close>\<close>

datatype strategy = PyPDFLoader | PDFPlumberLoader | DirectPyPDF | OCR

text \<open>The test \<open>doc.page_content and doc.page_content.strip()\<close> over the loaded pages.\<close>

definition has_text :: "document list \<Rightarrow> bool" where
  "has_text documents =
     list_ex (\<lambda>doc. page_content doc \<noteq> [] \<and> py_strip (page_content doc) \<noteq> []) documents"

text \<open>
  The loop \<open>for i, page in enumerate(...)\<close> of the third and fourth method, with its
  inner \<open>try\<close>: a page whose extraction raises is skipped, a page whose text is empty
  after \<open>strip()\<close> is skipped, every other page is kept with its index.
\<close>

fun page_loop ::
  "('p \<Rightarrow> py_exception + string) \<Rightarrow> string \<Rightarrow> nat \<Rightarrow> 'p list \<Rightarrow> document list" where
  "page_loop ex pdf_file i [] = []"
| "page_loop ex pdf_file i (p # ps) =
     (case ex p of
        Inl page_e \<Rightarrow> page_loop ex pdf_file (Suc i) ps
      | Inr text \<Rightarrow>
          (if py_strip text \<noteq> [] then
             \<lparr>page_content = text, source = pdf_file, page = i, company_number = None\<rparr>
               # page_loop ex pdf_file (Suc i) ps
           else page_loop ex pdf_file (Suc i) ps))"

text \<open>
  The body of each \<open>try\<close> block: \<open>Inl e\<close> when it raises, \<open>Inr (Some documents)\<close> when it
  reaches its \<open>return documents\<close>, \<open>Inr None\<close> when it ends without returning.
\<close>

definition try_PyPDFLoader :: "'w env \<Rightarrow> string \<Rightarrow> py_exception + document list option" where
  "try_PyPDFLoader E pdf_file =
     (case PyPDFLoader_load E pdf_file of
        Inl e \<Rightarrow> Inl e
      | Inr documents \<Rightarrow> Inr (if has_text documents then Some documents else None))"

definition try_PDFPlumberLoader :: "'w env \<Rightarrow> string \<Rightarrow> py_exception + document list option" where
  "try_PDFPlumberLoader E pdf_file =
     (case PDFPlumberLoader_load E pdf_file of
        Inl e \<Rightarrow> Inl e
      | Inr documents \<Rightarrow> Inr (if has_text documents then Some documents else None))"

definition try_direct_pypdf :: "'w env \<Rightarrow> string \<Rightarrow> py_exception + document list option" where
  "try_direct_pypdf E pdf_file =
     (case PdfReader_pages E pdf_file of
        Inl e \<Rightarrow> Inl e
      | Inr pages \<Rightarrow>
          (let text_content = page_loop (extract_text E) pdf_file 0 pages
           in Inr (if text_content \<noteq> [] then Some text_content else None)))"

definition try_ocr :: "'w env \<Rightarrow> string \<Rightarrow> py_exception + document list option" where
  "try_ocr E pdf_file =
     (case convert_from_path E pdf_file of
        Inl e \<Rightarrow> Inl e
      | Inr images \<Rightarrow>
          (let text_content = page_loop (image_to_string E) pdf_file 0 images
           in Inr (if text_content \<noteq> [] then Some text_content else None)))"

definition try_strategy ::
  "'w env \<Rightarrow> string \<Rightarrow> strategy \<Rightarrow> py_exception + document list option" where
  "try_strategy E pdf_file s =
     (case s of
        PyPDFLoader \<Rightarrow> try_PyPDFLoader E pdf_file
      | PDFPlumberLoader \<Rightarrow> try_PDFPlumberLoader E pdf_file
      | DirectPyPDF \<Rightarrow> try_direct_pypdf E pdf_file
      | OCR \<Rightarrow> try_ocr E pdf_file)"

text \<open>\<open>except Exception as e: print(...)\<close>: the exception is dropped and control goes on.\<close>

definition except_Exception ::
  "py_exception + 'a option \<Rightarrow> py_exception + 'a option" where
  "except_Exception body = (case body of Inl e \<Rightarrow> Inr None | Inr r \<Rightarrow> Inr r)"

text \<open>
  The method itself. Its result is paired with the list of the library entry points it
  has called, in call order; the second component is what the method returns or raises.
\<close>

definition load_pdf_with_fallbacks ::
  "'w env \<Rightarrow> string \<Rightarrow> strategy list \<times> (py_exception + document list)" where
  "load_pdf_with_fallbacks E pdf_file =
     (case except_Exception (try_PyPDFLoader E pdf_file) of
        Inl e \<Rightarrow> ([PyPDFLoader], Inl e)
      | Inr (Some documents) \<Rightarrow> ([PyPDFLoader], Inr documents)
      | Inr None \<Rightarrow>
     (case except_Exception (try_PDFPlumberLoader E pdf_file) of
        Inl e \<Rightarrow> ([PyPDFLoader, PDFPlumberLoader], Inl e)
      | Inr (Some documents) \<Rightarrow> ([PyPDFLoader, PDFPlumberLoader], Inr documents)
      | Inr None \<Rightarrow>
     (case except_Exception (try_direct_pypdf E pdf_file) of
        Inl e \<Rightarrow> ([PyPDFLoader, PDFPlumberLoader, DirectPyPDF], Inl e)
      | Inr (Some documents) \<Rightarrow> ([PyPDFLoader, PDFPlumberLoader, DirectPyPDF], Inr documents)
      | Inr None \<Rightarrow>
     (case except_Exception (try_ocr E pdf_file) of
        Inl e \<Rightarrow> ([PyPDFLoader, PDFPlumberLoader, DirectPyPDF, OCR], Inl e)
      | Inr (Some documents) \<Rightarrow>
          ([PyPDFLoader, PDFPlumberLoader, DirectPyPDF, OCR], Inr documents)
      | Inr None \<Rightarrow> ([PyPDFLoader, PDFPlumberLoader, DirectPyPDF, OCR], Inr [])))))"

text \<open>
  The success criterion in the words of the specification: the texts of the pages a
  strategy obtains (none when it raises; a page that raises is left out), and the
  test that one of them is not empty after trimming.
\<close>

definition strategy_order :: "strategy list" where
  "strategy_order = [PyPDFLoader, PDFPlumberLoader, DirectPyPDF, OCR]"

fun page_texts :: "('p \<Rightarrow> py_exception + string) \<Rightarrow> 'p list \<Rightarrow> string list" where
  "page_texts ex [] = []"
| "page_texts ex (p # ps) =
     (case ex p of Inl e \<Rightarrow> page_texts ex ps | Inr text \<Rightarrow> text # page_texts ex ps)"

definition strategy_texts :: "'w env \<Rightarrow> string \<Rightarrow> strategy \<Rightarrow> string list" where
  "strategy_texts E pdf_file s =
     (case s of
        PyPDFLoader \<Rightarrow>
          (case PyPDFLoader_load E pdf_file of Inl e \<Rightarrow> [] | Inr ds \<Rightarrow> map page_content ds)
      | PDFPlumberLoader \<Rightarrow>
          (case PDFPlumberLoader_load E pdf_file of Inl e \<Rightarrow> [] | Inr ds \<Rightarrow> map page_content ds)
      | DirectPyPDF \<Rightarrow>
          (case PdfReader_pages E pdf_file of
             Inl e \<Rightarrow> [] | Inr ps \<Rightarrow> page_texts (extract_text E) ps)
      | OCR \<Rightarrow>
          (case convert_from_path E pdf_file of
             Inl e \<Rightarrow> [] | Inr ims \<Rightarrow> page_texts (image_to_string E) ims))"

definition strategy_succeeds :: "'w env \<Rightarrow> string \<Rightarrow> strategy \<Rightarrow> bool" where
  "strategy_succeeds E pdf_file s =
     list_ex (\<lambda>t. py_strip t \<noteq> []) (strategy_texts E pdf_file s)"

definition strategy_documents :: "'w env \<Rightarrow> string \<Rightarrow> strategy \<Rightarrow> document list" where
  "strategy_documents E pdf_file s =
     (case try_strategy E pdf_file s of Inr (Some documents) \<Rightarrow> documents | _ \<Rightarrow> [])"

section \<open>\<open>PDFProcessor\<close>\<close>

definition MAX_CACHE_SIZE :: int where
  "MAX_CACHE_SIZE = 5"

record PDFProcessor =
  vector_store :: "vstore option"
  company_vector_stores :: "(string, vstore) LRUCache"

definition PDFProcessor_init :: PDFProcessor where
  "PDFProcessor_init =
     \<lparr>vector_store = None, company_vector_stores = LRUCache_init MAX_CACHE_SIZE\<rparr>"

text \<open>A company number is a string, so \<open>str(company_number)\<close> is the number itself.\<close>

definition get_company_vector_store_path :: "'w env \<Rightarrow> string \<Rightarrow> string" where
  "get_company_vector_store_path E company = os_path_join (VECTOR_STORE_PATH E) company"

subsection \<open>\<open>_process_company_pdfs\<close>\<close>

text \<open>
  The loop over the PDF files: each file is loaded, every page is tagged with the
  company number, and a file whose loading raises is skipped.
\<close>

fun load_all :: "'w env \<Rightarrow> string \<Rightarrow> string list \<Rightarrow> document list" where
  "load_all E company [] = []"
| "load_all E company (pdf_file # pdfs) =
     (case snd (load_pdf_with_fallbacks E pdf_file) of
        Inl e \<Rightarrow> load_all E company pdfs
      | Inr pdf_documents \<Rightarrow>
          map (\<lambda>doc. doc\<lparr>company_number := Some company\<rparr>) pdf_documents
            @ load_all E company pdfs)"

definition non_empty_documents :: "document list \<Rightarrow> document list" where
  "non_empty_documents documents =
     filter (\<lambda>doc. page_content doc \<noteq> [] \<and> py_strip (page_content doc) \<noteq> []) documents"

text \<open>
  The final \<open>try\<close> block: build the store, create the directory, save into it, put the
  store in the cache. Any exception inside makes the method return \<open>False\<close>; what
  the failed call has done to the disk stays.
\<close>

definition build_and_save ::
  "'w env \<Rightarrow> PDFProcessor \<Rightarrow> 'w \<Rightarrow> string \<Rightarrow> document list \<Rightarrow> bool \<times> PDFProcessor \<times> 'w" where
  "build_and_save E pr w company chunks =
     (case FAISS_from_documents E chunks of
        Inl e \<Rightarrow> (False, pr, w)
      | Inr company_vector_store \<Rightarrow>
          (let company_vector_store_path = get_company_vector_store_path E company
           in case os_makedirs E w company_vector_store_path of
                (Some e, w1) \<Rightarrow> (False, pr, w1)
              | (None, w1) \<Rightarrow>
                  (case FAISS_save_local E w1 company_vector_store company_vector_store_path of
                     (Some e, w2) \<Rightarrow> (False, pr, w2)
                   | (None, w2) \<Rightarrow>
                       (case put (company_vector_stores pr) company company_vector_store of
                          Inl e \<Rightarrow> (False, pr, w2)
                        | Inr c \<Rightarrow> (True, pr\<lparr>company_vector_stores := c\<rparr>, w2)))))"

text \<open>
  The method itself. The call of \<open>glob.glob\<close> is outside every \<open>try\<close> block: what it
  raises, the method raises. The result is what the method returns or raises, with
  the processor and the disk after the call.
\<close>

definition process_company_pdfs ::
  "'w env \<Rightarrow> PDFProcessor \<Rightarrow> 'w \<Rightarrow> string \<Rightarrow> (py_exception + bool) \<times> PDFProcessor \<times> 'w" where
  "process_company_pdfs E pr w company =
     (if company = [] then (Inr False, pr, w)
      else
        let company_path = os_path_join (DOWNLOAD_FOLDER E) company
        in case glob_glob E w (os_path_join company_path ''*.pdf'') of
             Inl e \<Rightarrow> (Inl e, pr, w)
           | Inr company_pdfs \<Rightarrow>
               if company_pdfs = [] then (Inr False, pr, w)
               else
                 let documents = load_all E company company_pdfs
                 in if documents = [] then (Inr False, pr, w)
                    else if non_empty_documents documents = [] then (Inr False, pr, w)
                    else
                      let chunks = split_documents E (non_empty_documents documents)
                      in if chunks = [] then (Inr False, pr, w)
                         else
                           (case build_and_save E pr w company chunks of
                              (success, pr', w') \<Rightarrow> (Inr success, pr', w')))"

subsection \<open>\<open>setup_qa_chain\<close> and \<open>answer_question\<close>\<close>

text \<open>
  The chain \<open>retriever | prompt | llm | StrOutputParser\<close> on a question: the four
  nearest documents become the context of the prompt, and the text the model
  produces is the result. The retriever and the model may raise.
\<close>

definition qa_chain_invoke :: "'w env \<Rightarrow> vstore \<Rightarrow> string \<Rightarrow> py_exception + string" where
  "qa_chain_invoke E vs q =
     (case retriever_error E q of
        Some e \<Rightarrow> Inl e
      | None \<Rightarrow> llm_invoke E \<lparr>prompt_context = similarity_search E vs q 4, prompt_question = q\<rparr>)"

definition setup_and_invoke :: "'w env \<Rightarrow> PDFProcessor \<Rightarrow> string \<Rightarrow> py_exception + string" where
  "setup_and_invoke E pr q =
     (case vector_store pr of
        None \<Rightarrow>
          Inl (ValueError
            ''Vector store not loaded. Call load_vector_store() or load_and_process_pdfs() first.'')
      | Some vs \<Rightarrow> qa_chain_invoke E vs q)"

text \<open>The end of \<open>answer_question\<close>, from \<open>if not self.vector_store\<close> on.\<close>

definition run_chain ::
  "'w env \<Rightarrow> PDFProcessor \<Rightarrow> 'w \<Rightarrow> string \<Rightarrow> string
     \<Rightarrow> (py_exception + string) \<times> PDFProcessor \<times> 'w" where
  "run_chain E pr w q company =
     (if vector_store pr = None then
        (Inr (''No data available for company '' @ company @ ''.''), pr, w)
      else (setup_and_invoke E pr q, pr, w))"

text \<open>
  The \<open>try\<close> block of the disk branch: load the store and put it in the cache.
\<close>

definition load_and_cache ::
  "'w env \<Rightarrow> PDFProcessor \<Rightarrow> 'w \<Rightarrow> string \<Rightarrow> string \<Rightarrow> py_exception + PDFProcessor" where
  "load_and_cache E pr w company_path company =
     (case FAISS_load_local E w company_path of
        Inl e \<Rightarrow> Inl e
      | Inr vs \<Rightarrow>
          (case put (company_vector_stores pr) company vs of
             Inl e \<Rightarrow> Inl e
           | Inr c \<Rightarrow> Inr (pr\<lparr>company_vector_stores := c, vector_store := Some vs\<rparr>)))"

text \<open>
  The method. Both calls of \<open>_process_company_pdfs\<close> are outside every \<open>try\<close> block (the
  first is inside an \<open>except\<close> handler), and so is the call of the chain: what they
  raise, the method raises.
\<close>

definition answer_question ::
  "'w env \<Rightarrow> PDFProcessor \<Rightarrow> 'w \<Rightarrow> string \<Rightarrow> string
     \<Rightarrow> (py_exception + string) \<times> PDFProcessor \<times> 'w" where
  "answer_question E pr w q company =
     (if company = [] then
        (Inr ''Please specify a company number to ask questions about.'', pr, w)
      else
        case get (company_vector_stores pr) company of
          Inl e \<Rightarrow> (Inl e, pr, w)
        | Inr (Some cached_vs, c) \<Rightarrow>
            run_chain E (pr\<lparr>company_vector_stores := c, vector_store := Some cached_vs\<rparr>) w q company
        | Inr (None, c) \<Rightarrow>
            (let pr0 = pr\<lparr>company_vector_stores := c\<rparr>;
                 company_path = get_company_vector_store_path E company
             in if os_path_exists E w company_path then
                  (case load_and_cache E pr0 w company_path company of
                     Inr pr1 \<Rightarrow> run_chain E pr1 w q company
                   | Inl e \<Rightarrow>
                       (case process_company_pdfs E pr0 w company of
                          (Inl e', pr1, w1) \<Rightarrow> (Inl e', pr1, w1)
                        | (Inr success, pr1, w1) \<Rightarrow>
                            (case get (company_vector_stores pr1) company of
                               Inl e' \<Rightarrow> (Inl e', pr1, w1)
                             | Inr (r, c') \<Rightarrow>
                                 (let pr2 = pr1\<lparr>company_vector_stores := c', vector_store := r\<rparr>
                                  in if r = None then
                                       (Inr (''Failed to process PDFs for company '' @ company @ ''.''),
                                        pr2, w1)
                                     else run_chain E pr2 w1 q company))))
                else
                  (case process_company_pdfs E pr0 w company of
                     (Inl e', pr1, w1) \<Rightarrow> (Inl e', pr1, w1)
                   | (Inr success, pr1, w1) \<Rightarrow>
                       if success then
                         (case get (company_vector_stores pr1) company of
                            Inl e' \<Rightarrow> (Inl e', pr1, w1)
                          | Inr (r, c') \<Rightarrow>
                              run_chain E (pr1\<lparr>company_vector_stores := c', vector_store := r\<rparr>)
                                w1 q company)
                       else
                         (Inr (''No PDFs found or processing failed for company '' @ company
                               @ ''. Please upload PDFs first.''),
                          pr1, w1))))"

subsection \<open>The stages of a build\<close>

text \<open>
  Names for the intermediate values of \<open>_process_company_pdfs\<close>: what \<open>glob.glob\<close> gives
  for the company, and the pages with text and the chunks obtained from a list of
  files.
\<close>

definition company_pdfs :: "'w env \<Rightarrow> 'w \<Rightarrow> string \<Rightarrow> py_exception + string list" where
  "company_pdfs E w company =
     glob_glob E w (os_path_join (os_path_join (DOWNLOAD_FOLDER E) company) ''*.pdf'')"

definition extracted_pages :: "'w env \<Rightarrow> string \<Rightarrow> string list \<Rightarrow> document list" where
  "extracted_pages E company pdfs = non_empty_documents (load_all E company pdfs)"

definition company_chunks :: "'w env \<Rightarrow> string \<Rightarrow> string list \<Rightarrow> document list" where
  "company_chunks E company pdfs = split_documents E (extracted_pages E company pdfs)"

subsection \<open>The messages of \<open>answer_question\<close>\<close>


section \<open>Tenant partitioning\<close>

text \<open>
  A company number is plain when it is a single path component: not empty, without
  \<open>/\<close>, and not \<open>.\<close> or \<open>..\<close>.
\<close>

definition plain_tenant :: "string \<Rightarrow> bool" where
  "plain_tenant company =
     (company \<noteq> [] \<and> CHR ''/'' \<notin> set company \<and> company \<noteq> ''.'' \<and> company \<noteq> ''..'')"

definition tagged :: "string \<Rightarrow> document list \<Rightarrow> bool" where
  "tagged company docs = list_all (\<lambda>doc. company_number doc = Some company) docs"

definition cache_tagged :: "(string, vstore) LRUCache \<Rightarrow> bool" where
  "cache_tagged c = list_all (\<lambda>e. tagged (fst e) (snd e)) (items c)"

definition disk_tagged :: "'w env \<Rightarrow> 'w \<Rightarrow> bool" where
  "disk_tagged E w =
     (\<forall>company vs. plain_tenant company \<longrightarrow>
        FAISS_load_local E w (get_company_vector_store_path E company) = Inr vs
        \<longrightarrow> tagged company vs)"

definition partitioned :: "'w env \<Rightarrow> PDFProcessor \<Rightarrow> 'w \<Rightarrow> bool" where
  "partitioned E pr w = (cache_tagged (company_vector_stores pr) \<and> disk_tagged E w)"

section \<open>Laws of the file system\<close>


definition save_load_law :: "'w env \<Rightarrow> bool" where
  "save_load_law E =
     (\<forall>w vs p w'. FAISS_save_local E w vs p = (None, w') \<longrightarrow> FAISS_load_local E w' p = Inr vs)"



section \<open>A concrete installation\<close>

text \<open>
  A small file system to run the definitions on. Its state is a table of the files
  that \<open>glob\<close> finds for a pattern and a table of the directories: a directory is
  absent, or exists without a loadable index (\<open>Some None\<close>), or holds one. A path
  names the directory given by its components: the path is cut at each \<open>/\<close>, empty
  components and \<open>.\<close> are dropped and \<open>..\<close> removes the component before it.
  \<open>split_slash\<close> is \<open>str.split('/')\<close>. A path with an embedded null character names
  nothing: \<open>glob\<close>, \<open>os.makedirs\<close>, \<open>save_local\<close> and \<open>load_local\<close> raise on it, and it
  does not exist. \<open>os.makedirs\<close> creates the directory and every missing directory
  above it. Symbolic links, regular files as path components and the wildcard
  characters of \<open>glob\<close> in a directory name are not part of it.
\<close>

record world =
  pdf_files :: "string list \<Rightarrow> string list"
  vector_dirs :: "string list \<Rightarrow> vstore option option"

fun split_slash :: "string \<Rightarrow> string list" where
  "split_slash [] = [[]]"
| "split_slash (ch # cs) =
     (if ch = CHR ''/'' then [] # split_slash cs
      else (case split_slash cs of [] \<Rightarrow> [[ch]] | x # xs \<Rightarrow> (ch # x) # xs))"

fun resolve :: "string list \<Rightarrow> string list \<Rightarrow> string list" where
  "resolve cur [] = cur"
| "resolve cur (c # cs) =
     (if c = [] \<or> c = ''.'' then resolve cur cs
      else if c = ''..'' then resolve (butlast cur) cs
      else resolve (cur @ [c]) cs)"

definition path_components :: "string \<Rightarrow> string list" where
  "path_components p = resolve [] (split_slash p)"

definition has_null :: "string \<Rightarrow> bool" where
  "has_null p = (CHR 0x00 \<in> set p)"

definition example_glob :: "world \<Rightarrow> string \<Rightarrow> py_exception + string list" where
  "example_glob w pattern =
     (if has_null pattern then Inl (ValueError ''embedded null byte'')
      else Inr (pdf_files w (path_components pattern)))"

definition example_exists :: "world \<Rightarrow> string \<Rightarrow> bool" where
  "example_exists w p =
     (\<not> has_null p \<and> (path_components p = [] \<or> vector_dirs w (path_components p) \<noteq> None))"

fun make_dirs ::
  "(string list \<Rightarrow> vstore option option) \<Rightarrow> string list \<Rightarrow> string list
     \<Rightarrow> (string list \<Rightarrow> vstore option option)" where
  "make_dirs tbl cur [] = tbl"
| "make_dirs tbl cur (c # cs) =
     make_dirs (if tbl (cur @ [c]) = None then tbl(cur @ [c] \<mapsto> None) else tbl) (cur @ [c]) cs"

definition example_makedirs :: "world \<Rightarrow> string \<Rightarrow> py_exception option \<times> world" where
  "example_makedirs w p =
     (if has_null p then (Some (ValueError ''embedded null byte''), w)
      else (None, w\<lparr>vector_dirs := make_dirs (vector_dirs w) [] (path_components p)\<rparr>))"

definition example_save_local ::
  "world \<Rightarrow> vstore \<Rightarrow> string \<Rightarrow> py_exception option \<times> world" where
  "example_save_local w vs p =
     (if has_null p then (Some (ValueError ''embedded null byte''), w)
      else (None, w\<lparr>vector_dirs := (vector_dirs w)(path_components p \<mapsto> Some vs)\<rparr>))"

definition example_load_local :: "world \<Rightarrow> string \<Rightarrow> py_exception + vstore" where
  "example_load_local w p =
     (if has_null p then Inl (ValueError ''embedded null byte'')
      else case vector_dirs w (path_components p) of
             Some (Some vs) \<Rightarrow> Inr vs
           | _ \<Rightarrow> Inl (Exception ''could not open index.faiss''))"

text \<open>
  The environment and the disk. Company \<open>00445790\<close> has one PDF with embedded text;
  company \<open>456\<close> has one scanned PDF that only OCR can read, on its second page;
  company \<open>789\<close> has one PDF on which every library raises; no other company has
  files. No directory has been created yet. The splitter keeps each page whole,
  embedding succeeds, and the language model answers with the text of its context.
\<close>

definition example_env :: "world env" where
  "example_env =
     \<lparr>DOWNLOAD_FOLDER = ''/srv/downloaded_pdfs'',
      VECTOR_STORE_PATH = ''/srv/vector_store'',
      glob_glob = example_glob,
      os_path_exists = example_exists,
      os_makedirs = example_makedirs,
      FAISS_save_local = example_save_local,
      FAISS_load_local = example_load_local,
      PyPDFLoader_load = (\<lambda>f.
        if f = ''/srv/downloaded_pdfs/00445790/a.pdf'' then
          Inr [\<lparr>page_content = ''Net profit 5'', source = f, page = 0, company_number = None\<rparr>]
        else if f = ''/srv/downloaded_pdfs/456/scan.pdf'' then
          Inr [\<lparr>page_content = '' '', source = f, page = 0, company_number = None\<rparr>]
        else Inl (Exception ''PdfReadError'')),
      PDFPlumberLoader_load = (\<lambda>f. Inl (Exception ''PDFSyntaxError'')),
      PdfReader_pages = (\<lambda>f.
        if f = ''/srv/downloaded_pdfs/456/scan.pdf'' then Inr [''p0'', ''p1'']
        else Inl (Exception ''PdfReadError'')),
      extract_text = (\<lambda>p. if p = ''p0'' then Inr [] else Inl (Exception ''bad page'')),
      convert_from_path = (\<lambda>f.
        if f = ''/srv/downloaded_pdfs/456/scan.pdf'' then Inr [''i0'', ''i1'']
        else Inl (Exception ''PDFPageCountError'')),
      image_to_string = (\<lambda>im. if im = ''i1'' then Inr ''Balance sheet'' else Inr []),
      split_text = (\<lambda>t. [t]),
      embed_documents_error = (\<lambda>chunks. None),
      distance = (\<lambda>q t. int (length t)),
      retriever_error = (\<lambda>q. None),
      llm_invoke = (\<lambda>p. Inr (concat (map page_content (prompt_context p))))\<rparr>"

definition example_world :: world where
  "example_world =
     \<lparr>pdf_files = (\<lambda>d.
        if d = [''srv'', ''downloaded_pdfs'', ''00445790'', ''*.pdf''] then
          [''/srv/downloaded_pdfs/00445790/a.pdf'']
        else if d = [''srv'', ''downloaded_pdfs'', ''456'', ''*.pdf''] then
          [''/srv/downloaded_pdfs/456/scan.pdf'']
        else if d = [''srv'', ''downloaded_pdfs'', ''789'', ''*.pdf''] then
          [''/srv/downloaded_pdfs/789/blank.pdf'']
        else []),
      vector_dirs = (\<lambda>d. None)\<rparr>"



section \<open>Properties of the cache\<close>

lemma od_setitem_absent:
  "k \<notin> set (map fst xs) \<Longrightarrow> od_setitem xs k v = xs @ [(k, v)]"
  by (induction xs) auto

lemma od_setitem_moved:
  "od_setitem (filter (\<lambda>e. fst e \<noteq> k) xs @ [(k, w)]) k v
     = filter (\<lambda>e. fst e \<noteq> k) xs @ [(k, v)]"
  by (induction xs) auto

lemma filter_absent: "k \<notin> set (map fst xs) \<Longrightarrow> filter (\<lambda>e. fst e \<noteq> k) xs = xs"
  by (induction xs) auto

lemma map_of_present: "k \<in> set (map fst xs) \<Longrightarrow> \<exists>v. map_of xs k = Some v"
  by (induction xs) auto

lemma map_of_moved: "map_of (filter (\<lambda>e. fst e \<noteq> k) xs @ [(k, v)]) k = Some v"
  by (induction xs) auto

lemma map_of_moved_other:
  "k' \<noteq> k \<Longrightarrow> map_of (filter (\<lambda>e. fst e \<noteq> k) xs @ [(k, v)]) k' = map_of xs k'"
  by (induction xs) auto

lemma length_filter_present:
  "distinct (map fst xs) \<Longrightarrow> k \<in> set (map fst xs) \<Longrightarrow>
     Suc (length (filter (\<lambda>e. fst e \<noteq> k) xs)) = length xs"
proof (induction xs)
  case Nil
  then show ?case by simp
next
  case (Cons e xs)
  show ?case
  proof (cases "fst e = k")
    case True
    with Cons.prems have "k \<notin> set (map fst xs)" by auto
    then have "filter (\<lambda>e. fst e \<noteq> k) xs = xs" by (rule filter_absent)
    with True show ?thesis by simp
  next
    case False
    with Cons show ?thesis by auto
  qed
qed

lemma distinct_moved:
  "distinct (map fst xs) \<Longrightarrow> distinct (map fst (filter (\<lambda>e. fst e \<noteq> k) xs @ [(k, v)]))"
  by (induction xs) auto

lemma set_keys_moved:
  "set (map fst (filter (\<lambda>e. fst e \<noteq> k) xs @ [(k, v)])) = insert k (set (map fst xs))"
  by (induction xs) auto

text \<open>Closed forms: neither \<open>get\<close> nor \<open>put\<close> ever raises.\<close>

lemma get_miss:
  "k \<notin> set (od_keys (items c)) \<Longrightarrow> get c k = Inr (None, c)"
  by (simp add: get_def od_contains_def)

lemma get_hit:
  assumes "map_of (items c) k = Some v"
  shows "get c k = Inr (Some v, c\<lparr>items := filter (\<lambda>e. fst e \<noteq> k) (items c) @ [(k, v)]\<rparr>)"
proof -
  from assms have "k \<in> set (map fst (items c))"
    by (metis map_of_eq_None_iff option.distinct(1) set_map)
  with assms show ?thesis
    by (simp add: get_def od_contains_def od_keys_def od_move_to_end_def od_getitem_def
        map_of_moved del: map_of_append)
qed

lemma put_insert_eq:
  "put_insert c k v = Inr (c\<lparr>items := filter (\<lambda>e. fst e \<noteq> k) (items c) @ [(k, v)]\<rparr>)"
proof (cases "k \<in> set (map fst (items c))")
  case True
  then obtain w where "map_of (items c) k = Some w"
    using map_of_present by fastforce
  with True show ?thesis
    by (simp add: put_insert_def od_contains_def od_keys_def od_move_to_end_def
        od_setitem_moved)
next
  case False
  then show ?thesis
    by (simp add: put_insert_def od_contains_def od_keys_def od_setitem_absent filter_absent)
qed

lemma put_evict_eq:
  "items c \<noteq> [] \<Longrightarrow>
     put_evict c = Inr (if len c > capacity c then c\<lparr>items := tl (items c)\<rparr> else c)"
  by (cases "items c") (simp_all add: put_evict_def len_def od_popitem_first_def)

lemma put_eq:
  "put c k v =
     Inr (if int (length (filter (\<lambda>e. fst e \<noteq> k) (items c))) + 1 > capacity c
          then c\<lparr>items := tl (filter (\<lambda>e. fst e \<noteq> k) (items c) @ [(k, v)])\<rparr>
          else c\<lparr>items := filter (\<lambda>e. fst e \<noteq> k) (items c) @ [(k, v)]\<rparr>)"
  by (simp add: put_def put_insert_eq put_evict_eq len_def)


lemma run_gets_only:
  "put_keys ops = [] \<Longrightarrow>
     \<exists>c'. run_ops c ops = Inr c' \<and> capacity c' = capacity c
       \<and> set (od_keys (items c')) = set (od_keys (items c))"
proof (induction ops arbitrary: c)
  case Nil
  then show ?case by simp
next
  case (Cons op ops)
  show ?case
  proof (cases op)
    case (Get k)
    with Cons.prems have pk: "put_keys ops = []" by simp
    show ?thesis
    proof (cases "map_of (items c) k")
      case None
      then have "k \<notin> set (od_keys (items c))"
        by (simp add: od_keys_def map_of_eq_None_iff)
      then have "get c k = Inr (None, c)" by (rule get_miss)
      with Get Cons.IH [OF pk, of c] show ?thesis by simp
    next
      case (Some v)
      let ?c1 = "c\<lparr>items := filter (\<lambda>e. fst e \<noteq> k) (items c) @ [(k, v)]\<rparr>"
      from Some have g: "get c k = Inr (Some v, ?c1)" by (rule get_hit)
      from Some have "k \<in> set (map fst (items c))"
        by (metis map_of_eq_None_iff option.distinct(1) set_map)
      then have "set (od_keys (items ?c1)) = set (od_keys (items c))"
        by (auto simp add: od_keys_def)
      with Get g Cons.IH [OF pk, of ?c1] show ?thesis by simp
    qed
  next
    case (Put k v)
    with Cons.prems show ?thesis by simp
  qed
qed

lemma run_head_evicted:
  assumes "items c = (k1, v1) # rest"
    and "wf_cache c"
    and "len c \<le> capacity c"
    and "k1 \<notin> set (get_keys ops)"
    and "distinct (put_keys ops)"
    and "set (put_keys ops) \<inter> set (od_keys (items c)) = {}"
    and "int (length (put_keys ops)) + len c = capacity c + 1"
  shows "\<exists>c'. run_ops c ops = Inr c'
           \<and> set (od_keys (items c')) = set (map fst rest) \<union> set (put_keys ops)"
  using assms
proof (induction ops arbitrary: c rest)
  case Nil
  then show ?case by simp
next
  case (Cons op ops)
  from Cons.prems(1,2) have k1_rest: "k1 \<notin> set (map fst rest)" and d_rest: "distinct (map fst rest)"
    by (simp_all add: wf_cache_def od_keys_def)
  show ?case
  proof (cases op)
    case (Get k)
    with Cons.prems have kk1: "k \<noteq> k1" and g: "k1 \<notin> set (get_keys ops)"
      and pk: "put_keys (op # ops) = put_keys ops" by auto
    show ?thesis
    proof (cases "map_of (items c) k")
      case None
      then have "k \<notin> set (od_keys (items c))"
        by (simp add: od_keys_def map_of_eq_None_iff)
      then have "get c k = Inr (None, c)" by (rule get_miss)
      moreover have "\<exists>c'. run_ops c ops = Inr c'
           \<and> set (od_keys (items c')) = set (map fst rest) \<union> set (put_keys ops)"
        using Cons.IH [OF Cons.prems(1,2,3) g] Cons.prems(5,6,7) pk by simp
      ultimately show ?thesis using Get by simp
    next
      case (Some v)
      let ?rest' = "filter (\<lambda>e. fst e \<noteq> k) rest @ [(k, v)]"
      let ?c1 = "c\<lparr>items := filter (\<lambda>e. fst e \<noteq> k) (items c) @ [(k, v)]\<rparr>"
      from Some have gh: "get c k = Inr (Some v, ?c1)" by (rule get_hit)
      from Some have kin: "k \<in> set (map fst (items c))"
        by (metis map_of_eq_None_iff option.distinct(1) set_map)
      with kk1 Cons.prems(1) have kin_rest: "k \<in> set (map fst rest)" by auto
      have i1: "items ?c1 = (k1, v1) # ?rest'"
        using Cons.prems(1) kk1 by simp
      have "distinct (map fst (filter (\<lambda>e. fst e \<noteq> k) (items c) @ [(k, v)]))"
        using Cons.prems(2) unfolding wf_cache_def od_keys_def by (rule distinct_moved)
      then have wf1: "wf_cache ?c1" by (simp add: wf_cache_def od_keys_def)
      have "Suc (length (filter (\<lambda>e. fst e \<noteq> k) (items c))) = length (items c)"
        using Cons.prems(2) kin unfolding wf_cache_def od_keys_def
        by (rule length_filter_present)
      then have len1: "len ?c1 = len c" by (simp add: len_def)
      have keys1: "set (od_keys (items ?c1)) = set (od_keys (items c))"
        using kin by (auto simp add: od_keys_def)
      have rest1: "set (map fst ?rest') = set (map fst rest)"
        using kin_rest by auto
      have "\<exists>c'. run_ops ?c1 ops = Inr c'
           \<and> set (od_keys (items c')) = set (map fst ?rest') \<union> set (put_keys ops)"
      proof (rule Cons.IH [OF i1 wf1 _ g])
        show "len ?c1 \<le> capacity ?c1" using Cons.prems(3) len1 by simp
        show "distinct (put_keys ops)" using Cons.prems(5) pk by simp
        show "set (put_keys ops) \<inter> set (od_keys (items ?c1)) = {}"
          using Cons.prems(6) pk keys1 by simp
        show "int (length (put_keys ops)) + len ?c1 = capacity ?c1 + 1"
          using Cons.prems(7) pk len1 by simp
      qed
      with rest1 Get gh show ?thesis by simp
    qed
  next
    case (Put k v)
    with Cons.prems have g: "k1 \<notin> set (get_keys ops)"
      and pk: "put_keys (op # ops) = k # put_keys ops"
      and knew: "k \<notin> set (map fst (items c))"
      and kfresh: "k \<notin> set (put_keys ops)"
      and dpk: "distinct (put_keys ops)"
      by (auto simp add: od_keys_def)
    from knew have fa: "filter (\<lambda>e. fst e \<noteq> k) (items c) = items c"
      by (rule filter_absent)
    from knew Cons.prems(1) have kk1: "k \<noteq> k1" by auto
    show ?thesis
    proof (cases "int (length (items c)) + 1 > capacity c")
      case True
      let ?c1 = "c\<lparr>items := rest @ [(k, v)]\<rparr>"
      from True fa Cons.prems(1) have p: "put c k v = Inr ?c1"
        by (simp add: put_eq)
      from True Cons.prems(3,7) pk have "put_keys ops = []"
        by (simp add: len_def)
      from run_gets_only [OF this, of ?c1] obtain c' where
        "run_ops ?c1 ops = Inr c'" "set (od_keys (items c')) = set (od_keys (items ?c1))"
        by blast
      with p Put pk \<open>put_keys ops = []\<close> show ?thesis
        by (auto simp add: od_keys_def)
    next
      case False
      let ?c1 = "c\<lparr>items := items c @ [(k, v)]\<rparr>"
      from False fa have p: "put c k v = Inr ?c1"
        by (simp add: put_eq)
      have i1: "items ?c1 = (k1, v1) # (rest @ [(k, v)])"
        using Cons.prems(1) by simp
      have wf1: "wf_cache ?c1"
        using Cons.prems(2) knew by (simp add: wf_cache_def od_keys_def)
      have "\<exists>c'. run_ops ?c1 ops = Inr c'
           \<and> set (od_keys (items c')) = set (map fst (rest @ [(k, v)])) \<union> set (put_keys ops)"
      proof (rule Cons.IH [OF i1 wf1 _ g dpk])
        show "len ?c1 \<le> capacity ?c1" using False by (simp add: len_def)
        show "set (put_keys ops) \<inter> set (od_keys (items ?c1)) = {}"
          using Cons.prems(6) pk kfresh by (auto simp add: od_keys_def)
        show "int (length (put_keys ops)) + len ?c1 = capacity ?c1 + 1"
          using Cons.prems(7) pk by (simp add: len_def)
      qed
      with p Put pk show ?thesis by auto
    qed
  qed
qed

lemma run_first_key_evicted:
  assumes "items c = []"
    and "capacity c = int (length ks)"
    and "put_keys ops = k1 # ks"
    and "distinct (k1 # ks)"
    and "k1 \<notin> set (get_keys ops)"
  shows "\<exists>c'. run_ops c ops = Inr c' \<and> set (od_keys (items c')) = set ks"
  using assms
proof (induction ops)
  case Nil
  then show ?case by simp
next
  case (Cons op ops)
  show ?case
  proof (cases op)
    case (Get k)
    from Cons.prems(1) have "get c k = Inr (None, c)"
      by (simp add: get_miss od_keys_def)
    with Get Cons show ?thesis by simp
  next
    case (Put k v)
    with Cons.prems have kk: "k = k1" and pk: "put_keys ops = ks"
      and g: "k1 \<notin> set (get_keys ops)" by simp_all
    show ?thesis
    proof (cases ks)
      case Nil
      let ?c1 = "c\<lparr>items := []\<rparr>"
      from Nil Cons.prems(1,2) have p: "put c k v = Inr ?c1"
        by (simp add: put_eq)
      from pk Nil have "put_keys ops = []" by simp
      from run_gets_only [OF this, of ?c1] obtain c' where
        "run_ops ?c1 ops = Inr c'" "set (od_keys (items c')) = set (od_keys (items ?c1))"
        by blast
      with p Put Nil show ?thesis by (simp add: od_keys_def)
    next
      case (Cons k2 ks')
      let ?c1 = "c\<lparr>items := [(k1, v)]\<rparr>"
      from Cons Cons.prems(1,2) kk have p: "put c k v = Inr ?c1"
        by (simp add: put_eq)
      have h1: "items ?c1 = (k1, v) # []" by simp
      have h2: "wf_cache ?c1" by (simp add: wf_cache_def od_keys_def)
      have h3: "len ?c1 \<le> capacity ?c1" using Cons.prems(2) Cons by (simp add: len_def)
      have h5: "distinct (put_keys ops)" using Cons.prems(4) pk by simp
      have h6: "set (put_keys ops) \<inter> set (od_keys (items ?c1)) = {}"
        using Cons.prems(4) pk by (simp add: od_keys_def)
      have h7: "int (length (put_keys ops)) + len ?c1 = capacity ?c1 + 1"
        using Cons.prems(2) pk by (simp add: len_def)
      from run_head_evicted [OF h1 h2 h3 g h5 h6 h7] p Put pk show ?thesis by simp
    qed
  qed
qed

lemma put_len_bound:
  assumes "len c \<le> capacity c"
  shows "\<exists>c'. put c k v = Inr c' \<and> capacity c' = capacity c \<and> len c' \<le> capacity c"
proof -
  obtain n where n: "n = length (filter (\<lambda>e. fst e \<noteq> k) (items c))" by simp
  then have "n \<le> length (items c)" by simp
  with assms show ?thesis
    by (simp add: put_eq len_def n [symmetric])
qed

lemma get_len_bound:
  assumes "len c \<le> capacity c"
  shows "\<exists>r c'. get c k = Inr (r, c') \<and> capacity c' = capacity c \<and> len c' \<le> capacity c"
proof (cases "map_of (items c) k")
  case None
  then have "k \<notin> set (od_keys (items c))"
    by (simp add: od_keys_def map_of_eq_None_iff)
  then have "get c k = Inr (None, c)" by (rule get_miss)
  with assms show ?thesis by simp
next
  case (Some v)
  obtain n where n: "n = length (filter (\<lambda>e. fst e \<noteq> k) (items c))" by simp
  have "length (filter (\<lambda>e. fst e \<noteq> k) (items c)) < length (items c)"
  proof (rule length_filter_less)
    from Some show "(k, v) \<in> set (items c)" by (rule map_of_SomeD)
  qed simp
  then have "n < length (items c)" by (simp add: n)
  with assms get_hit [OF Some] show ?thesis
    by (simp add: len_def n [symmetric])
qed

lemma run_ops_len_bound:
  "len c \<le> capacity c \<Longrightarrow>
     \<exists>c'. run_ops c ops = Inr c' \<and> capacity c' = capacity c \<and> len c' \<le> capacity c"
proof (induction ops arbitrary: c)
  case Nil
  then show ?case by simp
next
  case (Cons op ops)
  show ?case
  proof (cases op)
    case (Get k)
    from get_len_bound [OF Cons.prems, of k] obtain r c1 where
      g: "get c k = Inr (r, c1)" and c1: "capacity c1 = capacity c" "len c1 \<le> capacity c"
      by blast
    from c1 have "len c1 \<le> capacity c1" by simp
    from Cons.IH [OF this] g c1 Get show ?thesis by simp
  next
    case (Put k v)
    from put_len_bound [OF Cons.prems, of k v] obtain c1 where
      p: "put c k v = Inr c1" and c1: "capacity c1 = capacity c" "len c1 \<le> capacity c"
      by blast
    from c1 have "len c1 \<le> capacity c1" by simp
    from Cons.IH [OF this] p c1 Put show ?thesis by simp
  qed
qed

section \<open>The dictionary invariant is kept\<close>

lemma wf_cache_init: "wf_cache (LRUCache_init cap)"
  by (simp add: wf_cache_def od_keys_def LRUCache_init_def)

lemma wf_cache_get:
  assumes "wf_cache c" and "get c k = Inr (r, c')"
  shows "wf_cache c'"
proof (cases "map_of (items c) k")
  case None
  then have "k \<notin> set (od_keys (items c))"
    by (simp add: od_keys_def map_of_eq_None_iff)
  then have "get c k = Inr (None, c)" by (rule get_miss)
  with assms show ?thesis by simp
next
  case (Some v)
  have "distinct (map fst (filter (\<lambda>e. fst e \<noteq> k) (items c) @ [(k, v)]))"
    using assms(1) unfolding wf_cache_def od_keys_def by (rule distinct_moved)
  with assms(2) get_hit [OF Some] show ?thesis
    by (auto simp add: wf_cache_def od_keys_def)
qed

lemma wf_cache_put:
  assumes "wf_cache c" and "put c k v = Inr c'"
  shows "wf_cache c'"
proof -
  let ?xs = "filter (\<lambda>e. fst e \<noteq> k) (items c) @ [(k, v)]"
  have d: "distinct (map fst ?xs)"
    using assms(1) unfolding wf_cache_def od_keys_def by (rule distinct_moved)
  then have "distinct (map fst (tl ?xs))"
    by (simp add: distinct_tl map_tl)
  with d assms(2) show ?thesis
    by (auto simp add: put_eq wf_cache_def od_keys_def split: if_splits)
qed

lemma wf_cache_run_ops:
  "wf_cache c \<Longrightarrow> run_ops c ops = Inr c' \<Longrightarrow> wf_cache c'"
proof (induction ops arbitrary: c)
  case Nil
  then show ?case by simp
next
  case (Cons op ops)
  show ?case
  proof (cases op)
    case (Get k)
    with Cons.prems(2) obtain r c1 where g: "get c k = Inr (r, c1)"
      and r: "run_ops c1 ops = Inr c'"
      by (auto split: sum.splits)
    from Cons.IH [OF wf_cache_get [OF Cons.prems(1) g] r] show ?thesis .
  next
    case (Put k v)
    with Cons.prems(2) obtain c1 where p: "put c k v = Inr c1"
      and r: "run_ops c1 ops = Inr c'"
      by (auto split: sum.splits)
    from Cons.IH [OF wf_cache_put [OF Cons.prems(1) p] r] show ?thesis .
  qed
qed

section \<open>Claims about the cache\<close>

text \<open>
  C9. For every cache state and every key that is not in the cache, \<open>get(key)\<close>
  returns \<open>None\<close> and leaves the cache as it was: the same entries with the same
  values in the same recency order, and the same capacity.
\<close>

theorem get_absent_unchanged:
  "\<not> od_contains (items c) k \<Longrightarrow> get c k = Inr (None, c)"
  by (simp add: get_def)

theorem get_absent_unchanged_witness:
  "\<not> od_contains (items \<lparr>items = [(''00445790'', 1::nat)], capacity = 5\<rparr>) ''99999999''
   \<and> get \<lparr>items = [(''00445790'', 1::nat)], capacity = 5\<rparr> ''99999999''
       = Inr (None, \<lparr>items = [(''00445790'', 1::nat)], capacity = 5\<rparr>)"
  using get_absent_unchanged [of "\<lparr>items = [(''00445790'', 1::nat)], capacity = 5\<rparr>" "''99999999''"]
  by (simp add: od_contains_def od_keys_def)

text \<open>
  C10. For a cache with distinct keys whose size is at most its capacity, and a key
  that is in the cache, \<open>put(key, value)\<close> does not raise and evicts nothing: the key
  moves to the back (most recently used) with the new value, the other entries keep
  their order and their values, and the size, the set of keys and the capacity are
  unchanged.
\<close>

theorem put_present_no_eviction:
  assumes "wf_cache c" and "len c \<le> capacity c" and "od_contains (items c) k"
  shows "\<exists>c'. put c k v = Inr c'
           \<and> items c' = filter (\<lambda>e. fst e \<noteq> k) (items c) @ [(k, v)]
           \<and> capacity c' = capacity c
           \<and> len c' = len c
           \<and> set (od_keys (items c')) = set (od_keys (items c))
           \<and> od_getitem (items c') k = Inr v
           \<and> (\<forall>k'. k' \<noteq> k \<longrightarrow> od_getitem (items c') k' = od_getitem (items c) k')
           \<and> last (od_keys (items c')) = k"
proof -
  let ?xs = "filter (\<lambda>e. fst e \<noteq> k) (items c) @ [(k, v)]"
  from assms(3) have kin: "k \<in> set (map fst (items c))"
    by (simp add: od_contains_def od_keys_def)
  with assms(1) have l: "Suc (length (filter (\<lambda>e. fst e \<noteq> k) (items c))) = length (items c)"
    unfolding wf_cache_def od_keys_def by (rule length_filter_present)
  then have "int (length (filter (\<lambda>e. fst e \<noteq> k) (items c))) + 1 = len c"
    by (simp add: len_def)
  with assms(2) have p: "put c k v = Inr (c\<lparr>items := ?xs\<rparr>)"
    by (simp add: put_eq)
  have "len (c\<lparr>items := ?xs\<rparr>) = len c"
    using l by (simp add: len_def)
  moreover have "set (od_keys ?xs) = set (od_keys (items c))"
    using kin by (auto simp add: od_keys_def)
  moreover have "od_getitem ?xs k = Inr v"
    by (simp add: od_getitem_def map_of_moved del: map_of_append)
  moreover have "\<forall>k'. k' \<noteq> k \<longrightarrow> od_getitem ?xs k' = od_getitem (items c) k'"
    by (simp add: od_getitem_def map_of_moved_other del: map_of_append)
  moreover have "last (od_keys ?xs) = k"
    by (simp add: od_keys_def)
  ultimately show ?thesis using p by simp
qed

theorem put_present_no_eviction_witness:
  "wf_cache \<lparr>items = [(''a'', 1::nat), (''b'', 2)], capacity = 2\<rparr>
   \<and> len \<lparr>items = [(''a'', 1::nat), (''b'', 2)], capacity = 2\<rparr> \<le> 2
   \<and> od_contains [(''a'', 1::nat), (''b'', 2)] ''a''
   \<and> put \<lparr>items = [(''a'', 1::nat), (''b'', 2)], capacity = 2\<rparr> ''a'' 7
       = Inr \<lparr>items = [(''b'', 2), (''a'', 7)], capacity = 2\<rparr>"
proof -
  let ?c = "\<lparr>items = [(''a'', 1::nat), (''b'', 2)], capacity = 2\<rparr>"
  have h1: "wf_cache ?c" by (simp add: wf_cache_def od_keys_def)
  have h2: "len ?c \<le> capacity ?c" by (simp add: len_def)
  have h3: "od_contains (items ?c) ''a''" by (simp add: od_contains_def od_keys_def)
  from put_present_no_eviction [OF h1 h2 h3, of 7] obtain c' where
    "put ?c ''a'' 7 = Inr c'" "items c' = [(''b'', 2), (''a'', 7)]" "capacity c' = 2"
    by auto
  then have "put ?c ''a'' 7 = Inr \<lparr>items = [(''b'', 2), (''a'', 7)], capacity = 2\<rparr>"
    by (cases c') simp
  with h1 h2 h3 show ?thesis by simp
qed

text \<open>
  C2, as the code has it. A cache whose size is at most its capacity keeps that bound
  after every sequence of \<open>get\<close> and \<open>put\<close> calls, none of which raises. Inside a
  \<open>put\<close> the bound is weaker: after the assignment and before the eviction the cache
  holds at most one entry more than its capacity.
\<close>

theorem cache_size_bounded:
  assumes "len c \<le> capacity c"
  shows "(\<exists>c'. run_ops c ops = Inr c' \<and> capacity c' = capacity c \<and> len c' \<le> capacity c)
       \<and> (\<exists>c1. put_insert c k v = Inr c1 \<and> capacity c1 = capacity c
              \<and> len c1 \<le> capacity c + 1)"
proof
  show "\<exists>c'. run_ops c ops = Inr c' \<and> capacity c' = capacity c \<and> len c' \<le> capacity c"
    using assms by (rule run_ops_len_bound)
next
  obtain n where n: "n = length (filter (\<lambda>e. fst e \<noteq> k) (items c))" by simp
  then have "n \<le> length (items c)" by simp
  with assms show "\<exists>c1. put_insert c k v = Inr c1 \<and> capacity c1 = capacity c
              \<and> len c1 \<le> capacity c + 1"
    by (simp add: put_insert_eq len_def n [symmetric])
qed

theorem cache_size_bounded_witness:
  "len (LRUCache_init 1 :: (string, nat) LRUCache) \<le> capacity (LRUCache_init 1 :: (string, nat) LRUCache)
   \<and> run_ops (LRUCache_init 1) [Put ''a'' (1::nat), Put ''b'' 2, Get ''a'', Get ''b'']
       = Inr \<lparr>items = [(''b'', 2)], capacity = 1\<rparr>
   \<and> len \<lparr>items = [(''b'', 2::nat)], capacity = 1\<rparr> \<le> 1"
proof -
  let ?c = "LRUCache_init 1 :: (string, nat) LRUCache"
  have h: "len ?c \<le> capacity ?c" by (simp add: len_def LRUCache_init_def)
  have r: "run_ops ?c [Put ''a'' (1::nat), Put ''b'' 2, Get ''a'', Get ''b'']
       = Inr \<lparr>items = [(''b'', 2)], capacity = 1\<rparr>"
    by (simp add: LRUCache_init_def put_eq get_def od_contains_def od_keys_def
        od_move_to_end_def od_getitem_def)
  from cache_size_bounded [OF h, of "[Put ''a'' (1::nat), Put ''b'' 2, Get ''a'', Get ''b'']"] r
  have "len \<lparr>items = [(''b'', 2::nat)], capacity = 1\<rparr> \<le> 1"
    by (auto simp add: LRUCache_init_def)
  with h r show ?thesis by simp
qed

text \<open>
  C2, as stated, fails inside \<open>put\<close>: a cache of capacity 1 that holds one entry holds
  two entries after the assignment \<open>self[key] = value\<close> of a \<open>put\<close> of a new key, before
  \<open>popitem\<close> runs.
\<close>

theorem cache_transient_overflow:
  "put (LRUCache_init 1) ''a'' (1::nat) = Inr \<lparr>items = [(''a'', 1)], capacity = 1\<rparr>
   \<and> put_insert \<lparr>items = [(''a'', 1::nat)], capacity = 1\<rparr> ''b'' 2
       = Inr \<lparr>items = [(''a'', 1), (''b'', 2)], capacity = 1\<rparr>
   \<and> len \<lparr>items = [(''a'', 1::nat), (''b'', 2)], capacity = 1\<rparr>
       > capacity \<lparr>items = [(''a'', 1::nat), (''b'', 2)], capacity = 1\<rparr>"
  by (simp add: LRUCache_init_def put_eq put_insert_eq len_def)

text \<open>
  C3. The recency law, for a cache with distinct keys. A \<open>get\<close> of a present key
  returns its value and moves the entry to the back. The first half of \<open>put\<close> leaves
  the key at the back with the new value, the other entries in their order. The
  second half removes the front entry, the least recently used one, exactly when
  the size exceeds the capacity. And a run from the empty cache of capacity \<open>K\<close>
  that puts \<open>K + 1\<close> distinct keys, with any \<open>get\<close>s in between except of the first key,
  ends with exactly the other \<open>K\<close> keys: the first one was evicted.
\<close>

theorem lru_recency_law:
  assumes "wf_cache c"
  shows "(map_of (items c) k = Some w \<longrightarrow>
            get c k = Inr (Some w, c\<lparr>items := filter (\<lambda>e. fst e \<noteq> k) (items c) @ [(k, w)]\<rparr>))
       \<and> (\<exists>c1. put_insert c key val = Inr c1
              \<and> items c1 = filter (\<lambda>e. fst e \<noteq> key) (items c) @ [(key, val)]
              \<and> capacity c1 = capacity c
              \<and> wf_cache c1
              \<and> put c key val = Inr (if len c1 > capacity c1 then c1\<lparr>items := tl (items c1)\<rparr> else c1))
       \<and> (put_keys ops = k1 # ks \<and> distinct (k1 # ks) \<and> k1 \<notin> set (get_keys ops) \<longrightarrow>
            (\<exists>c'. run_ops (LRUCache_init (int (length ks))) ops = Inr c'
               \<and> set (od_keys (items c')) = set ks \<and> k1 \<notin> set (od_keys (items c'))))"
proof (intro conjI impI)
  assume "map_of (items c) k = Some w"
  then show "get c k = Inr (Some w, c\<lparr>items := filter (\<lambda>e. fst e \<noteq> k) (items c) @ [(k, w)]\<rparr>)"
    by (rule get_hit)
next
  let ?c1 = "c\<lparr>items := filter (\<lambda>e. fst e \<noteq> key) (items c) @ [(key, val)]\<rparr>"
  have "distinct (map fst (filter (\<lambda>e. fst e \<noteq> key) (items c) @ [(key, val)]))"
    using assms unfolding wf_cache_def od_keys_def by (rule distinct_moved)
  then have "wf_cache ?c1" by (simp add: wf_cache_def od_keys_def)
  moreover have "put c key val = Inr (if len ?c1 > capacity ?c1 then ?c1\<lparr>items := tl (items ?c1)\<rparr> else ?c1)"
    by (simp add: put_def put_insert_eq put_evict_eq)
  ultimately show "\<exists>c1. put_insert c key val = Inr c1
              \<and> items c1 = filter (\<lambda>e. fst e \<noteq> key) (items c) @ [(key, val)]
              \<and> capacity c1 = capacity c
              \<and> wf_cache c1
              \<and> put c key val = Inr (if len c1 > capacity c1 then c1\<lparr>items := tl (items c1)\<rparr> else c1)"
    by (simp add: put_insert_eq)
next
  assume a: "put_keys ops = k1 # ks \<and> distinct (k1 # ks) \<and> k1 \<notin> set (get_keys ops)"
  let ?c0 = "LRUCache_init (int (length ks)) :: ('c, 'd) LRUCache"
  have "\<exists>c'. run_ops ?c0 ops = Inr c' \<and> set (od_keys (items c')) = set ks"
  proof (rule run_first_key_evicted)
    show "items ?c0 = []" by (simp add: LRUCache_init_def)
    show "capacity ?c0 = int (length ks)" by (simp add: LRUCache_init_def)
    show "put_keys ops = k1 # ks" using a by simp
    show "distinct (k1 # ks)" using a by simp
    show "k1 \<notin> set (get_keys ops)" using a by simp
  qed
  with a show "\<exists>c'. run_ops ?c0 ops = Inr c'
               \<and> set (od_keys (items c')) = set ks \<and> k1 \<notin> set (od_keys (items c'))"
    by auto
qed

theorem lru_recency_law_witness:
  "wf_cache \<lparr>items = [(''a'', 1::nat), (''b'', 2)], capacity = 2\<rparr>
   \<and> get \<lparr>items = [(''a'', 1::nat), (''b'', 2)], capacity = 2\<rparr> ''a''
       = Inr (Some 1, \<lparr>items = [(''b'', 2), (''a'', 1)], capacity = 2\<rparr>)
   \<and> put \<lparr>items = [(''a'', 1::nat), (''b'', 2)], capacity = 2\<rparr> ''c'' 3
       = Inr \<lparr>items = [(''b'', 2), (''c'', 3)], capacity = 2\<rparr>
   \<and> (\<exists>c'. run_ops (LRUCache_init 2) [Put ''a'' (1::nat), Put ''b'' 2, Get ''b'', Put ''c'' 3] = Inr c'
         \<and> set (od_keys (items c')) = {''b'', ''c''} \<and> ''a'' \<notin> set (od_keys (items c')))"
proof -
  let ?c = "\<lparr>items = [(''a'', 1::nat), (''b'', 2)], capacity = 2\<rparr>"
  let ?ops = "[Put ''a'' (1::nat), Put ''b'' 2, Get ''b'', Put ''c'' 3]"
  have h: "wf_cache ?c" by (simp add: wf_cache_def od_keys_def)
  note law = lru_recency_law [OF h, where k = "''a''" and w = 1 and key = "''c''" and val = 3
      and ops = ?ops and ?k1.0 = "''a''" and ks = "[''b'', ''c'']"]
  have m: "map_of (items ?c) ''a'' = Some 1" by simp
  from law [THEN conjunct1] m
  have "get ?c ''a'' = Inr (Some 1, ?c\<lparr>items := filter (\<lambda>e. fst e \<noteq> ''a'') (items ?c) @ [(''a'', 1)]\<rparr>)"
    by (rule mp)
  then have g: "get ?c ''a'' = Inr (Some 1, \<lparr>items = [(''b'', 2), (''a'', 1)], capacity = 2\<rparr>)"
    by simp
  from law [THEN conjunct2, THEN conjunct1] obtain c1 where
    c1: "items c1 = filter (\<lambda>e. fst e \<noteq> ''c'') (items ?c) @ [(''c'', 3)]"
      "capacity c1 = capacity ?c"
      "put ?c ''c'' 3 = Inr (if len c1 > capacity c1 then c1\<lparr>items := tl (items c1)\<rparr> else c1)"
    by blast
  from c1(1,2) have "c1 = \<lparr>items = [(''a'', 1), (''b'', 2), (''c'', 3)], capacity = 2\<rparr>"
    by (cases c1) simp
  with c1(3) have p: "put ?c ''c'' 3 = Inr \<lparr>items = [(''b'', 2), (''c'', 3)], capacity = 2\<rparr>"
    by (simp add: len_def)
  have prem: "put_keys ?ops = ''a'' # [''b'', ''c''] \<and> distinct (''a'' # [''b'', ''c''])
      \<and> ''a'' \<notin> set (get_keys ?ops)"
    by simp
  from law [THEN conjunct2, THEN conjunct2] prem
  have "\<exists>c'. run_ops (LRUCache_init (int (length [''b'', ''c''])) :: (string, nat) LRUCache) ?ops = Inr c'
         \<and> set (od_keys (items c')) = set [''b'', ''c''] \<and> ''a'' \<notin> set (od_keys (items c'))"
    by (rule mp)
  then have r: "\<exists>c'. run_ops (LRUCache_init 2) ?ops = Inr c'
         \<and> set (od_keys (items c')) = {''b'', ''c''} \<and> ''a'' \<notin> set (od_keys (items c'))"
    by simp
  from h g p r show ?thesis by (intro conjI)
qed

section \<open>Claims about the extractor\<close>

lemma py_strip_Nil: "py_strip [] = []"
  by (simp add: py_strip_def)

lemma has_text_texts:
  "has_text documents = list_ex (\<lambda>t. py_strip t \<noteq> []) (map page_content documents)"
  unfolding has_text_def by (induction documents) (auto simp add: py_strip_Nil)

lemma page_loop_texts:
  "(page_loop ex pdf_file i ps \<noteq> []) = list_ex (\<lambda>t. py_strip t \<noteq> []) (page_texts ex ps)"
  by (induction ps arbitrary: i) (auto split: sum.splits)

lemma strategy_outcome:
  "except_Exception (try_strategy E pdf_file s)
     = Inr (if strategy_succeeds E pdf_file s then Some (strategy_documents E pdf_file s) else None)"
proof (cases s)
  case PyPDFLoader
  then show ?thesis
    by (simp add: except_Exception_def try_strategy_def try_PyPDFLoader_def
        strategy_succeeds_def strategy_texts_def strategy_documents_def has_text_texts
        split: sum.splits)
next
  case PDFPlumberLoader
  then show ?thesis
    by (simp add: except_Exception_def try_strategy_def try_PDFPlumberLoader_def
        strategy_succeeds_def strategy_texts_def strategy_documents_def has_text_texts
        split: sum.splits)
next
  case DirectPyPDF
  then show ?thesis
    by (simp add: except_Exception_def try_strategy_def try_direct_pypdf_def
        strategy_succeeds_def strategy_texts_def strategy_documents_def Let_def
        page_loop_texts split: sum.splits)
next
  case OCR
  then show ?thesis
    by (simp add: except_Exception_def try_strategy_def try_ocr_def
        strategy_succeeds_def strategy_texts_def strategy_documents_def Let_def
        page_loop_texts split: sum.splits)
qed

lemma strategy_succeeds_iff:
  "strategy_succeeds E pdf_file s = (\<exists>documents. try_strategy E pdf_file s = Inr (Some documents))"
proof -
  have "except_Exception (try_strategy E pdf_file s)
     = Inr (if strategy_succeeds E pdf_file s then Some (strategy_documents E pdf_file s) else None)"
    by (rule strategy_outcome)
  then show ?thesis
    by (cases "try_strategy E pdf_file s") (auto simp add: except_Exception_def split: if_splits)
qed

lemma load_pdf_with_fallbacks_cases:
  "load_pdf_with_fallbacks E pdf_file =
     (if strategy_succeeds E pdf_file PyPDFLoader then
        ([PyPDFLoader], Inr (strategy_documents E pdf_file PyPDFLoader))
      else if strategy_succeeds E pdf_file PDFPlumberLoader then
        ([PyPDFLoader, PDFPlumberLoader], Inr (strategy_documents E pdf_file PDFPlumberLoader))
      else if strategy_succeeds E pdf_file DirectPyPDF then
        ([PyPDFLoader, PDFPlumberLoader, DirectPyPDF],
         Inr (strategy_documents E pdf_file DirectPyPDF))
      else if strategy_succeeds E pdf_file OCR then
        ([PyPDFLoader, PDFPlumberLoader, DirectPyPDF, OCR], Inr (strategy_documents E pdf_file OCR))
      else ([PyPDFLoader, PDFPlumberLoader, DirectPyPDF, OCR], Inr []))"
proof -
  have t: "try_PyPDFLoader E pdf_file = try_strategy E pdf_file PyPDFLoader"
    "try_PDFPlumberLoader E pdf_file = try_strategy E pdf_file PDFPlumberLoader"
    "try_direct_pypdf E pdf_file = try_strategy E pdf_file DirectPyPDF"
    "try_ocr E pdf_file = try_strategy E pdf_file OCR"
    by (simp_all add: try_strategy_def)
  show ?thesis
    unfolding load_pdf_with_fallbacks_def t strategy_outcome by simp
qed

lemma load_pdf_with_fallbacks_returns:
  "\<exists>documents. snd (load_pdf_with_fallbacks E pdf_file) = Inr documents"
  by (simp add: load_pdf_with_fallbacks_cases)

text \<open>
  C4. The extractor never raises: whatever the four libraries do on the file (return
  or raise, for the document or for single pages), \<open>_load_pdf_with_fallbacks\<close> returns a
  list of pages. A strategy that raises has failed, and the calls do not stop at it
  unless it is the last one, OCR. When no strategy succeeds, and in particular
  when each of the four raises, all four have been called and the list is empty.
\<close>

theorem extractor_never_raises:
  "(\<exists>documents. snd (load_pdf_with_fallbacks E pdf_file) = Inr documents)
   \<and> ((\<exists>e. try_strategy E pdf_file s = Inl e) \<longrightarrow>
        \<not> strategy_succeeds E pdf_file s
        \<and> (last (fst (load_pdf_with_fallbacks E pdf_file)) = s \<longrightarrow> s = OCR))
   \<and> ((\<forall>s. \<not> strategy_succeeds E pdf_file s) \<longrightarrow>
        load_pdf_with_fallbacks E pdf_file = (strategy_order, Inr []))
   \<and> ((\<forall>s. \<exists>e. try_strategy E pdf_file s = Inl e) \<longrightarrow>
        load_pdf_with_fallbacks E pdf_file = (strategy_order, Inr []))"
proof (intro conjI impI)
  show "\<exists>documents. snd (load_pdf_with_fallbacks E pdf_file) = Inr documents"
    by (rule load_pdf_with_fallbacks_returns)
next
  assume "\<exists>e. try_strategy E pdf_file s = Inl e"
  then show "\<not> strategy_succeeds E pdf_file s"
    by (auto simp add: strategy_succeeds_iff)
next
  assume "\<exists>e. try_strategy E pdf_file s = Inl e"
    and l: "last (fst (load_pdf_with_fallbacks E pdf_file)) = s"
  then have "\<not> strategy_succeeds E pdf_file s"
    by (auto simp add: strategy_succeeds_iff)
  with l show "s = OCR"
    by (auto simp add: load_pdf_with_fallbacks_cases split: if_splits)
next
  assume "\<forall>s. \<not> strategy_succeeds E pdf_file s"
  then show "load_pdf_with_fallbacks E pdf_file = (strategy_order, Inr [])"
    by (simp add: load_pdf_with_fallbacks_cases strategy_order_def)
next
  assume a: "\<forall>s. \<exists>e. try_strategy E pdf_file s = Inl e"
  have "\<not> strategy_succeeds E pdf_file s" for s
  proof -
    from a obtain e where "try_strategy E pdf_file s = Inl e" by blast
    then show ?thesis by (simp add: strategy_succeeds_iff)
  qed
  then show "load_pdf_with_fallbacks E pdf_file = (strategy_order, Inr [])"
    by (simp add: load_pdf_with_fallbacks_cases strategy_order_def)
qed

theorem extractor_never_raises_witness:
  "(\<forall>s. \<exists>e. try_strategy example_env ''/srv/downloaded_pdfs/789/blank.pdf'' s = Inl e)
   \<and> load_pdf_with_fallbacks example_env ''/srv/downloaded_pdfs/789/blank.pdf''
       = ([PyPDFLoader, PDFPlumberLoader, DirectPyPDF, OCR], Inr [])"
proof -
  let ?f = "''/srv/downloaded_pdfs/789/blank.pdf''"
  have h: "\<forall>s. \<exists>e. try_strategy example_env ?f s = Inl e"
  proof
    fix s
    show "\<exists>e. try_strategy example_env ?f s = Inl e"
      by (cases s)
        (simp_all add: try_strategy_def try_PyPDFLoader_def try_PDFPlumberLoader_def
          try_direct_pypdf_def try_ocr_def example_env_def)
  qed
  from extractor_never_raises [of example_env ?f, THEN conjunct2, THEN conjunct2, THEN conjunct2] h
  have "load_pdf_with_fallbacks example_env ?f = (strategy_order, Inr [])"
    by (rule mp)
  with h show ?thesis by (simp add: strategy_order_def)
qed

text \<open>
  C5. The strategies are tried in the fixed order PyPDFLoader, PDFPlumberLoader, direct
  pypdf, OCR. The calls made are the strategies that fail, in that order, up to and
  including the first that succeeds; the result is the pages of that first
  successful strategy, or the empty list when there is none. A strategy succeeds,
  that is, its block returns, exactly when one of the page texts it obtains is not
  empty after trimming.
\<close>

theorem extractor_priority_order:
  "fst (load_pdf_with_fallbacks E pdf_file)
     = takeWhile (\<lambda>s. \<not> strategy_succeeds E pdf_file s) strategy_order
       @ take 1 (dropWhile (\<lambda>s. \<not> strategy_succeeds E pdf_file s) strategy_order)
   \<and> snd (load_pdf_with_fallbacks E pdf_file)
     = Inr (case find (strategy_succeeds E pdf_file) strategy_order of
              None \<Rightarrow> []
            | Some s \<Rightarrow> strategy_documents E pdf_file s)
   \<and> (\<forall>s. strategy_succeeds E pdf_file s
          = (\<exists>documents. try_strategy E pdf_file s = Inr (Some documents)))
   \<and> (\<forall>s. strategy_succeeds E pdf_file s
          = (\<exists>t. t \<in> set (strategy_texts E pdf_file s) \<and> py_strip t \<noteq> []))"
proof (intro conjI allI)
  show "fst (load_pdf_with_fallbacks E pdf_file)
     = takeWhile (\<lambda>s. \<not> strategy_succeeds E pdf_file s) strategy_order
       @ take 1 (dropWhile (\<lambda>s. \<not> strategy_succeeds E pdf_file s) strategy_order)"
    by (simp add: load_pdf_with_fallbacks_cases strategy_order_def)
next
  show "snd (load_pdf_with_fallbacks E pdf_file)
     = Inr (case find (strategy_succeeds E pdf_file) strategy_order of
              None \<Rightarrow> []
            | Some s \<Rightarrow> strategy_documents E pdf_file s)"
    by (simp add: load_pdf_with_fallbacks_cases strategy_order_def)
next
  fix s
  show "strategy_succeeds E pdf_file s
          = (\<exists>documents. try_strategy E pdf_file s = Inr (Some documents))"
    by (rule strategy_succeeds_iff)
next
  fix s
  show "strategy_succeeds E pdf_file s
          = (\<exists>t. t \<in> set (strategy_texts E pdf_file s) \<and> py_strip t \<noteq> [])"
    by (auto simp add: strategy_succeeds_def list_ex_iff)
qed


lemma scan_PyPDFLoader_fails:
  "\<not> strategy_succeeds example_env ''/srv/downloaded_pdfs/456/scan.pdf'' PyPDFLoader"
  by (simp add: strategy_succeeds_def strategy_texts_def example_env_def py_strip_def
      py_isspace_def)

lemma scan_PDFPlumberLoader_fails:
  "\<not> strategy_succeeds example_env ''/srv/downloaded_pdfs/456/scan.pdf'' PDFPlumberLoader"
  by (simp add: strategy_succeeds_def strategy_texts_def example_env_def)

lemma scan_DirectPyPDF_fails:
  "\<not> strategy_succeeds example_env ''/srv/downloaded_pdfs/456/scan.pdf'' DirectPyPDF"
  by (simp add: strategy_succeeds_def strategy_texts_def example_env_def py_strip_def)

lemma scan_OCR_succeeds:
  "strategy_succeeds example_env ''/srv/downloaded_pdfs/456/scan.pdf'' OCR"
  by (simp add: strategy_succeeds_def strategy_texts_def example_env_def py_strip_def
      py_isspace_def)

lemma scan_OCR_documents:
  "strategy_documents example_env ''/srv/downloaded_pdfs/456/scan.pdf'' OCR
     = [\<lparr>page_content = ''Balance sheet'', source = ''/srv/downloaded_pdfs/456/scan.pdf'',
         page = 1, company_number = None\<rparr>]"
  by (simp add: strategy_documents_def try_strategy_def try_ocr_def example_env_def
      py_strip_def py_isspace_def)

theorem extractor_priority_order_witness:
  "load_pdf_with_fallbacks example_env ''/srv/downloaded_pdfs/456/scan.pdf''
     = ([PyPDFLoader, PDFPlumberLoader, DirectPyPDF, OCR],
        Inr [\<lparr>page_content = ''Balance sheet'', source = ''/srv/downloaded_pdfs/456/scan.pdf'',
              page = 1, company_number = None\<rparr>])"
proof -
  let ?f = "''/srv/downloaded_pdfs/456/scan.pdf''"
  note facts = scan_PyPDFLoader_fails scan_PDFPlumberLoader_fails scan_DirectPyPDF_fails
    scan_OCR_succeeds scan_OCR_documents
  from extractor_priority_order [of example_env ?f, THEN conjunct1]
  have "fst (load_pdf_with_fallbacks example_env ?f)
      = [PyPDFLoader, PDFPlumberLoader, DirectPyPDF, OCR]"
    by (simp add: strategy_order_def facts)
  moreover from extractor_priority_order [of example_env ?f, THEN conjunct2, THEN conjunct1]
  have "snd (load_pdf_with_fallbacks example_env ?f)
      = Inr [\<lparr>page_content = ''Balance sheet'', source = ?f, page = 1, company_number = None\<rparr>]"
    by (simp add: strategy_order_def facts)
  ultimately show ?thesis by (simp add: prod_eq_iff)
qed

section \<open>Properties of the index builder\<close>

lemma non_empty_documents_Nil: "non_empty_documents [] = []"
  by (simp add: non_empty_documents_def)

lemma put_total: "\<exists>c'. put c k v = Inr c' \<and> capacity c' = capacity c"
  by (simp add: put_eq)

lemma process_company_pdfs_empty:
  "process_company_pdfs E pr w [] = (Inr False, pr, w)"
  by (simp add: process_company_pdfs_def)

lemma process_company_pdfs_glob_raises:
  "company \<noteq> [] \<Longrightarrow> company_pdfs E w company = Inl e \<Longrightarrow>
     process_company_pdfs E pr w company = (Inl e, pr, w)"
  by (simp add: process_company_pdfs_def company_pdfs_def)

lemma process_company_pdfs_no_files:
  "company_pdfs E w company = Inr [] \<Longrightarrow>
     process_company_pdfs E pr w company = (Inr False, pr, w)"
  by (simp add: process_company_pdfs_def company_pdfs_def)

lemma process_company_pdfs_no_pages:
  "company_pdfs E w company = Inr pdfs \<Longrightarrow> extracted_pages E company pdfs = [] \<Longrightarrow>
     process_company_pdfs E pr w company = (Inr False, pr, w)"
  by (simp add: process_company_pdfs_def extracted_pages_def company_pdfs_def Let_def)

lemma process_company_pdfs_no_chunks:
  "company_pdfs E w company = Inr pdfs \<Longrightarrow> company_chunks E company pdfs = [] \<Longrightarrow>
     process_company_pdfs E pr w company = (Inr False, pr, w)"
  by (simp add: process_company_pdfs_def company_chunks_def extracted_pages_def
      company_pdfs_def Let_def)

lemma process_company_pdfs_build:
  assumes "company \<noteq> []" and "company_pdfs E w company = Inr pdfs" and "pdfs \<noteq> []"
    and "extracted_pages E company pdfs \<noteq> []" and "company_chunks E company pdfs \<noteq> []"
  shows "process_company_pdfs E pr w company
           = (Inr (fst (build_and_save E pr w company (company_chunks E company pdfs))),
              snd (build_and_save E pr w company (company_chunks E company pdfs)))"
proof -
  from assms(4) have "load_all E company pdfs \<noteq> []"
    by (auto simp add: extracted_pages_def non_empty_documents_Nil)
  with assms show ?thesis
    by (simp add: process_company_pdfs_def company_chunks_def extracted_pages_def
        company_pdfs_def Let_def split: prod.splits)
qed

lemma process_company_pdfs_cases:
  "process_company_pdfs E pr w company = (Inr False, pr, w)
   \<or> (\<exists>e. company \<noteq> [] \<and> company_pdfs E w company = Inl e
          \<and> process_company_pdfs E pr w company = (Inl e, pr, w))
   \<or> (\<exists>pdfs. company \<noteq> [] \<and> company_pdfs E w company = Inr pdfs \<and> pdfs \<noteq> []
          \<and> extracted_pages E company pdfs \<noteq> [] \<and> company_chunks E company pdfs \<noteq> []
          \<and> process_company_pdfs E pr w company
              = (Inr (fst (build_and_save E pr w company (company_chunks E company pdfs))),
                 snd (build_and_save E pr w company (company_chunks E company pdfs))))"
proof (cases "company = []")
  case True
  then show ?thesis by (simp add: process_company_pdfs_empty)
next
  case ne: False
  show ?thesis
  proof (cases "company_pdfs E w company")
    case (Inl e)
    with ne process_company_pdfs_glob_raises [OF ne Inl] show ?thesis by simp
  next
    case (Inr pdfs)
    show ?thesis
    proof (cases "pdfs = [] \<or> extracted_pages E company pdfs = []
                   \<or> company_chunks E company pdfs = []")
      case True
      with Inr process_company_pdfs_no_files [of E w company pr]
        process_company_pdfs_no_pages [OF Inr, of pr]
        process_company_pdfs_no_chunks [OF Inr, of pr]
      show ?thesis by auto
    next
      case False
      with ne Inr process_company_pdfs_build [OF ne Inr, of pr] show ?thesis by simp
    qed
  qed
qed

lemma build_and_save_True:
  assumes "fst (build_and_save E pr w company chunks)"
  shows "embed_documents_error E chunks = None
       \<and> (\<exists>w1 w2 c.
             os_makedirs E w (get_company_vector_store_path E company) = (None, w1)
             \<and> FAISS_save_local E w1 chunks (get_company_vector_store_path E company) = (None, w2)
             \<and> put (company_vector_stores pr) company chunks = Inr c
             \<and> build_and_save E pr w company chunks = (True, pr\<lparr>company_vector_stores := c\<rparr>, w2))"
proof -
  let ?p = "get_company_vector_store_path E company"
  obtain c where c: "put (company_vector_stores pr) company chunks = Inr c"
    using put_total [of "company_vector_stores pr" company chunks] by blast
  obtain r1 w1 where m: "os_makedirs E w ?p = (r1, w1)"
    by (cases "os_makedirs E w ?p") auto
  obtain r2 w2 where s: "FAISS_save_local E w1 chunks ?p = (r2, w2)"
    by (cases "FAISS_save_local E w1 chunks ?p") auto
  from assms c m s show ?thesis
    by (cases "embed_documents_error E chunks"; cases r1; cases r2)
       (simp_all add: build_and_save_def FAISS_from_documents_def Let_def)
qed

lemma build_and_save_False:
  "\<not> fst (build_and_save E pr w company chunks) \<Longrightarrow>
     fst (snd (build_and_save E pr w company chunks)) = pr"
  by (auto simp add: build_and_save_def Let_def split: sum.splits prod.splits option.splits)

lemma process_company_pdfs_True:
  assumes "fst (process_company_pdfs E pr w company) = Inr True"
  shows "\<exists>pdfs. company \<noteq> [] \<and> company_pdfs E w company = Inr pdfs \<and> pdfs \<noteq> []
          \<and> extracted_pages E company pdfs \<noteq> [] \<and> company_chunks E company pdfs \<noteq> []
          \<and> fst (build_and_save E pr w company (company_chunks E company pdfs))
          \<and> process_company_pdfs E pr w company
              = (Inr True, snd (build_and_save E pr w company (company_chunks E company pdfs)))"
  using process_company_pdfs_cases [of E pr w company] assms by auto

lemma process_company_pdfs_raises:
  assumes "fst (process_company_pdfs E pr w company) = Inl e"
  shows "company \<noteq> [] \<and> company_pdfs E w company = Inl e
       \<and> process_company_pdfs E pr w company = (Inl e, pr, w)"
  using process_company_pdfs_cases [of E pr w company] assms by auto

lemma process_company_pdfs_not_True:
  assumes "fst (process_company_pdfs E pr w company) \<noteq> Inr True"
  shows "fst (snd (process_company_pdfs E pr w company)) = pr"
  using process_company_pdfs_cases [of E pr w company] assms
  by (auto simp add: build_and_save_False)

lemma process_company_pdfs_built:
  assumes "fst (process_company_pdfs E pr w company) = Inr True"
    and "company_pdfs E w company = Inr pdfs"
  shows "\<exists>w1 c.
           os_makedirs E w (get_company_vector_store_path E company) = (None, w1)
           \<and> FAISS_save_local E w1 (company_chunks E company pdfs)
                 (get_company_vector_store_path E company)
               = (None, snd (snd (process_company_pdfs E pr w company)))
           \<and> put (company_vector_stores pr) company (company_chunks E company pdfs) = Inr c
           \<and> fst (snd (process_company_pdfs E pr w company)) = pr\<lparr>company_vector_stores := c\<rparr>
           \<and> embed_documents_error E (company_chunks E company pdfs) = None
           \<and> pdfs \<noteq> [] \<and> extracted_pages E company pdfs \<noteq> []
           \<and> company_chunks E company pdfs \<noteq> []"
proof -
  from process_company_pdfs_True [OF assms(1)] assms(2)
  have ne: "pdfs \<noteq> []" "extracted_pages E company pdfs \<noteq> []"
      "company_chunks E company pdfs \<noteq> []"
    and b: "fst (build_and_save E pr w company (company_chunks E company pdfs))"
    and p: "process_company_pdfs E pr w company
              = (Inr True, snd (build_and_save E pr w company (company_chunks E company pdfs)))"
    by auto
  from build_and_save_True [OF b] obtain w1 w2 c where
    "embed_documents_error E (company_chunks E company pdfs) = None"
    "os_makedirs E w (get_company_vector_store_path E company) = (None, w1)"
    "FAISS_save_local E w1 (company_chunks E company pdfs)
        (get_company_vector_store_path E company) = (None, w2)"
    "put (company_vector_stores pr) company (company_chunks E company pdfs) = Inr c"
    "build_and_save E pr w company (company_chunks E company pdfs)
        = (True, pr\<lparr>company_vector_stores := c\<rparr>, w2)"
    by blast
  with p ne show ?thesis by simp
qed


section \<open>The concrete installation\<close>

subsection \<open>Paths of single components\<close>








subsection \<open>The laws hold\<close>


lemma make_dirs_keeps: "tbl d \<noteq> None \<Longrightarrow> make_dirs tbl cur cs d \<noteq> None"
  by (induction cs arbitrary: tbl cur) auto


lemma example_calls [simp]:
  "glob_glob example_env = example_glob"
  "os_path_exists example_env = example_exists"
  "os_makedirs example_env = example_makedirs"
  "FAISS_save_local example_env = example_save_local"
  "FAISS_load_local example_env = example_load_local"
  by (simp_all add: example_env_def)


lemma example_save_load_law: "save_load_law example_env"
  by (auto simp add: save_load_law_def example_save_local_def example_load_local_def
      split: if_splits)





subsection \<open>The three companies\<close>

lemma example_no_files: "company_pdfs example_env example_world ''99999999'' = Inr []"
  by (simp add: company_pdfs_def example_glob_def has_null_def)
    (simp add: example_env_def example_world_def os_path_join_def path_components_def)

lemma example_blank_files:
  "company_pdfs example_env example_world ''789'' = Inr [''/srv/downloaded_pdfs/789/blank.pdf'']"
  by (simp add: company_pdfs_def example_glob_def has_null_def)
    (simp add: example_env_def example_world_def os_path_join_def path_components_def)

lemma example_blank_load:
  "load_pdf_with_fallbacks example_env ''/srv/downloaded_pdfs/789/blank.pdf''
     = ([PyPDFLoader, PDFPlumberLoader, DirectPyPDF, OCR], Inr [])"
  by (simp add: load_pdf_with_fallbacks_def except_Exception_def try_PyPDFLoader_def
      try_PDFPlumberLoader_def try_direct_pypdf_def try_ocr_def example_env_def)

lemma example_blank_pages:
  "extracted_pages example_env ''789'' [''/srv/downloaded_pdfs/789/blank.pdf''] = []"
  by (simp add: extracted_pages_def example_blank_load non_empty_documents_def)

lemma example_text_files:
  "company_pdfs example_env example_world ''00445790''
     = Inr [''/srv/downloaded_pdfs/00445790/a.pdf'']"
  by (simp add: company_pdfs_def example_glob_def has_null_def)
    (simp add: example_env_def example_world_def os_path_join_def path_components_def)

lemma example_text_load:
  "load_pdf_with_fallbacks example_env ''/srv/downloaded_pdfs/00445790/a.pdf''
     = ([PyPDFLoader],
        Inr [\<lparr>page_content = ''Net profit 5'', source = ''/srv/downloaded_pdfs/00445790/a.pdf'',
              page = 0, company_number = None\<rparr>])"
  by (simp add: load_pdf_with_fallbacks_def except_Exception_def try_PyPDFLoader_def
      has_text_def py_strip_def py_isspace_def example_env_def)

lemma example_text_pages:
  "extracted_pages example_env ''00445790'' [''/srv/downloaded_pdfs/00445790/a.pdf'']
     = [\<lparr>page_content = ''Net profit 5'', source = ''/srv/downloaded_pdfs/00445790/a.pdf'',
         page = 0, company_number = Some ''00445790''\<rparr>]"
  by (simp add: extracted_pages_def example_text_load non_empty_documents_def
      py_strip_def py_isspace_def)

lemma example_text_chunks:
  "company_chunks example_env ''00445790'' [''/srv/downloaded_pdfs/00445790/a.pdf'']
     = [\<lparr>page_content = ''Net profit 5'', source = ''/srv/downloaded_pdfs/00445790/a.pdf'',
         page = 0, company_number = Some ''00445790''\<rparr>]"
  by (simp add: company_chunks_def example_text_pages split_documents_def)
    (simp add: example_env_def)


lemma example_store_path:
  "get_company_vector_store_path example_env ''00445790'' = ''/srv/vector_store/00445790''"
  by (simp add: get_company_vector_store_path_def example_env_def os_path_join_def)

lemma example_store_components:
  "path_components ''/srv/vector_store/00445790'' = [''srv'', ''vector_store'', ''00445790'']"
  by (simp add: path_components_def)

lemma example_store_no_null: "\<not> has_null ''/srv/vector_store/00445790''"
  by (simp add: has_null_def)

lemma example_build:
  "process_company_pdfs example_env pr example_world ''00445790''
     = (Inr (fst (build_and_save example_env pr example_world ''00445790''
                   (company_chunks example_env ''00445790''
                      [''/srv/downloaded_pdfs/00445790/a.pdf'']))),
        snd (build_and_save example_env pr example_world ''00445790''
               (company_chunks example_env ''00445790''
                  [''/srv/downloaded_pdfs/00445790/a.pdf''])))"
  by (rule process_company_pdfs_build [OF _ example_text_files])
    (simp_all add: example_text_pages example_text_chunks)

lemma example_build_True:
  "fst (process_company_pdfs example_env pr example_world ''00445790'') = Inr True"
proof -
  have e: "embed_documents_error example_env chunks = None" for chunks
    by (simp add: example_env_def)
  show ?thesis
    unfolding example_build
    by (simp add: build_and_save_def FAISS_from_documents_def Let_def put_eq e
        example_store_path example_makedirs_def example_save_local_def example_store_no_null)
qed

lemma example_null_files:
  "company_pdfs example_env example_world [CHR ''a'', CHR 0x00, CHR ''b'']
     = Inl (ValueError ''embedded null byte'')"
  by (simp add: company_pdfs_def example_glob_def has_null_def)
    (simp add: example_env_def os_path_join_def)

section \<open>Claims about the index builder\<close>

text \<open>
  C8, as the code has it. \<open>_process_company_pdfs\<close> returns a boolean and nothing else,
  or raises what \<open>glob.glob\<close> raises. For the empty company number it returns
  \<open>False\<close>. Otherwise it raises, with nothing changed, when \<open>glob.glob\<close> raises, and it
  returns \<open>False\<close>, with nothing changed, when the company has no PDF files, when the
  files yield no page with text, and when the pages yield no chunks: the result is
  the same in the three cases. It raises only in the case named. When it returns
  \<open>True\<close>, none of the three is the case, embedding, \<open>os.makedirs\<close> and \<open>save_local\<close> did
  not raise, the disk is the one \<open>save_local\<close> left, and the store is in the cache.
\<close>

theorem build_result_is_boolean:
  "(company = [] \<longrightarrow> process_company_pdfs E pr w company = (Inr False, pr, w))
   \<and> (company \<noteq> [] \<and> company_pdfs E w company = Inl e \<longrightarrow>
        process_company_pdfs E pr w company = (Inl e, pr, w))
   \<and> (company_pdfs E w company = Inr [] \<longrightarrow>
        process_company_pdfs E pr w company = (Inr False, pr, w))
   \<and> (company_pdfs E w company = Inr pdfs \<and> extracted_pages E company pdfs = [] \<longrightarrow>
        process_company_pdfs E pr w company = (Inr False, pr, w))
   \<and> (company_pdfs E w company = Inr pdfs \<and> company_chunks E company pdfs = [] \<longrightarrow>
        process_company_pdfs E pr w company = (Inr False, pr, w))
   \<and> (fst (process_company_pdfs E pr w company) = Inl e \<longrightarrow>
        company \<noteq> [] \<and> company_pdfs E w company = Inl e)
   \<and> (fst (process_company_pdfs E pr w company) = Inr True
        \<and> company_pdfs E w company = Inr pdfs \<longrightarrow>
        pdfs \<noteq> [] \<and> extracted_pages E company pdfs \<noteq> []
        \<and> company_chunks E company pdfs \<noteq> []
        \<and> embed_documents_error E (company_chunks E company pdfs) = None
        \<and> (\<exists>w1 c.
              os_makedirs E w (get_company_vector_store_path E company) = (None, w1)
              \<and> FAISS_save_local E w1 (company_chunks E company pdfs)
                    (get_company_vector_store_path E company)
                  = (None, snd (snd (process_company_pdfs E pr w company)))
              \<and> put (company_vector_stores pr) company (company_chunks E company pdfs) = Inr c
              \<and> fst (snd (process_company_pdfs E pr w company))
                  = pr\<lparr>company_vector_stores := c\<rparr>))"
proof (intro conjI impI)
  assume "company = []"
  then show "process_company_pdfs E pr w company = (Inr False, pr, w)"
    by (simp add: process_company_pdfs_empty)
next
  assume "company \<noteq> [] \<and> company_pdfs E w company = Inl e"
  then show "process_company_pdfs E pr w company = (Inl e, pr, w)"
    by (simp add: process_company_pdfs_glob_raises)
next
  assume "company_pdfs E w company = Inr []"
  then show "process_company_pdfs E pr w company = (Inr False, pr, w)"
    by (rule process_company_pdfs_no_files)
next
  assume "company_pdfs E w company = Inr pdfs \<and> extracted_pages E company pdfs = []"
  then show "process_company_pdfs E pr w company = (Inr False, pr, w)"
    by (simp add: process_company_pdfs_no_pages)
next
  assume "company_pdfs E w company = Inr pdfs \<and> company_chunks E company pdfs = []"
  then show "process_company_pdfs E pr w company = (Inr False, pr, w)"
    by (simp add: process_company_pdfs_no_chunks)
next
  assume a: "fst (process_company_pdfs E pr w company) = Inl e"
  from process_company_pdfs_raises [OF a] show "company \<noteq> []" by simp
  from process_company_pdfs_raises [OF a] show "company_pdfs E w company = Inl e" by simp
next
  assume a: "fst (process_company_pdfs E pr w company) = Inr True
        \<and> company_pdfs E w company = Inr pdfs"
  then have t: "fst (process_company_pdfs E pr w company) = Inr True"
    and g: "company_pdfs E w company = Inr pdfs" by simp_all
  note b = process_company_pdfs_built [OF t g]
  from b show "pdfs \<noteq> []" by blast
  from b show "extracted_pages E company pdfs \<noteq> []" by blast
  from b show "company_chunks E company pdfs \<noteq> []" by blast
  from b show "embed_documents_error E (company_chunks E company pdfs) = None" by blast
  from b show "\<exists>w1 c.
              os_makedirs E w (get_company_vector_store_path E company) = (None, w1)
              \<and> FAISS_save_local E w1 (company_chunks E company pdfs)
                    (get_company_vector_store_path E company)
                  = (None, snd (snd (process_company_pdfs E pr w company)))
              \<and> put (company_vector_stores pr) company (company_chunks E company pdfs) = Inr c
              \<and> fst (snd (process_company_pdfs E pr w company))
                  = pr\<lparr>company_vector_stores := c\<rparr>"
    by blast
qed

theorem build_result_is_boolean_witness:
  "process_company_pdfs example_env PDFProcessor_init example_world []
       = (Inr False, PDFProcessor_init, example_world)
   \<and> company_pdfs example_env example_world [CHR ''a'', CHR 0x00, CHR ''b'']
       = Inl (ValueError ''embedded null byte'')
   \<and> process_company_pdfs example_env PDFProcessor_init example_world
         [CHR ''a'', CHR 0x00, CHR ''b'']
       = (Inl (ValueError ''embedded null byte''), PDFProcessor_init, example_world)
   \<and> company_pdfs example_env example_world ''99999999'' = Inr []
   \<and> process_company_pdfs example_env PDFProcessor_init example_world ''99999999''
       = (Inr False, PDFProcessor_init, example_world)
   \<and> extracted_pages example_env ''789'' [''/srv/downloaded_pdfs/789/blank.pdf''] = []
   \<and> process_company_pdfs example_env PDFProcessor_init example_world ''789''
       = (Inr False, PDFProcessor_init, example_world)
   \<and> company_chunks (example_env\<lparr>split_text := (\<lambda>t. [])\<rparr>) ''00445790''
         [''/srv/downloaded_pdfs/00445790/a.pdf''] = []
   \<and> process_company_pdfs (example_env\<lparr>split_text := (\<lambda>t. [])\<rparr>) PDFProcessor_init
         example_world ''00445790''
       = (Inr False, PDFProcessor_init, example_world)
   \<and> fst (process_company_pdfs example_env PDFProcessor_init example_world ''00445790'')
       = Inr True
   \<and> embed_documents_error example_env
         (company_chunks example_env ''00445790'' [''/srv/downloaded_pdfs/00445790/a.pdf''])
       = None"
proof -
  let ?nul = "[CHR ''a'', CHR 0x00, CHR ''b'']"
  let ?E0 = "example_env\<lparr>split_text := (\<lambda>t. [])\<rparr>"
  let ?a = "[''/srv/downloaded_pdfs/00445790/a.pdf'']"
  note z = build_result_is_boolean [where E = example_env and w = example_world
      and company = "[]" and pr = PDFProcessor_init]
  note n = build_result_is_boolean [where E = example_env and w = example_world
      and company = ?nul and pr = PDFProcessor_init and e = "ValueError ''embedded null byte''"]
  note a = build_result_is_boolean [where E = example_env and w = example_world
      and company = "''99999999''" and pr = PDFProcessor_init]
  note b = build_result_is_boolean [where E = example_env and w = example_world
      and company = "''789''" and pr = PDFProcessor_init
      and pdfs = "[''/srv/downloaded_pdfs/789/blank.pdf'']"]
  note c = build_result_is_boolean [where E = ?E0 and w = example_world
      and company = "''00445790''" and pr = PDFProcessor_init and pdfs = ?a]
  note d = build_result_is_boolean [where E = example_env and w = example_world
      and company = "''00445790''" and pr = PDFProcessor_init and pdfs = ?a]
  from z [THEN conjunct1]
  have 0: "process_company_pdfs example_env PDFProcessor_init example_world []
       = (Inr False, PDFProcessor_init, example_world)"
    by simp
  have "?nul \<noteq> [] \<and> company_pdfs example_env example_world ?nul
      = Inl (ValueError ''embedded null byte'')"
    using example_null_files by simp
  with n [THEN conjunct2, THEN conjunct1]
  have 1: "process_company_pdfs example_env PDFProcessor_init example_world ?nul
       = (Inl (ValueError ''embedded null byte''), PDFProcessor_init, example_world)"
    by (rule mp)
  from a [THEN conjunct2, THEN conjunct2, THEN conjunct1] example_no_files
  have 2: "process_company_pdfs example_env PDFProcessor_init example_world ''99999999''
       = (Inr False, PDFProcessor_init, example_world)"
    by (rule mp)
  have "company_pdfs example_env example_world ''789'' = Inr [''/srv/downloaded_pdfs/789/blank.pdf'']
      \<and> extracted_pages example_env ''789'' [''/srv/downloaded_pdfs/789/blank.pdf''] = []"
    using example_blank_files example_blank_pages by (intro conjI)
  with b [THEN conjunct2, THEN conjunct2, THEN conjunct2, THEN conjunct1]
  have 3: "process_company_pdfs example_env PDFProcessor_init example_world ''789''
       = (Inr False, PDFProcessor_init, example_world)"
    by (rule mp)
  have c0: "company_chunks ?E0 ''00445790'' ?a = []"
    by (simp add: company_chunks_def split_documents_def)
  have "company_pdfs ?E0 example_world ''00445790'' = Inr ?a"
    using example_text_files by (simp add: company_pdfs_def)
  with c0 have "company_pdfs ?E0 example_world ''00445790'' = Inr ?a
      \<and> company_chunks ?E0 ''00445790'' ?a = []"
    by (intro conjI)
  with c [THEN conjunct2, THEN conjunct2, THEN conjunct2, THEN conjunct2, THEN conjunct1]
  have 4: "process_company_pdfs ?E0 PDFProcessor_init example_world ''00445790''
       = (Inr False, PDFProcessor_init, example_world)"
    by (rule mp)
  have "fst (process_company_pdfs example_env PDFProcessor_init example_world ''00445790'')
       = Inr True
      \<and> company_pdfs example_env example_world ''00445790'' = Inr ?a"
    using example_build_True example_text_files by (intro conjI)
  with d [THEN conjunct2, THEN conjunct2, THEN conjunct2, THEN conjunct2, THEN conjunct2,
      THEN conjunct2]
  have 5: "embed_documents_error example_env (company_chunks example_env ''00445790'' ?a) = None"
    by blast
  from 0 example_null_files 1 example_no_files 2 example_blank_pages 3 c0 4
    example_build_True [of PDFProcessor_init] 5
  show ?thesis by (intro conjI)
qed

text \<open>
  C8, as stated, fails: a company with no PDF files and a company whose only PDF
  yields no text get the same result from the builder, \<open>False\<close> with nothing changed.
\<close>

theorem build_failures_indistinguishable:
  "company_pdfs example_env example_world ''99999999'' = Inr []
   \<and> company_pdfs example_env example_world ''789'' = Inr [''/srv/downloaded_pdfs/789/blank.pdf'']
   \<and> extracted_pages example_env ''789'' [''/srv/downloaded_pdfs/789/blank.pdf''] = []
   \<and> process_company_pdfs example_env PDFProcessor_init example_world ''99999999''
       = (Inr False, PDFProcessor_init, example_world)
   \<and> process_company_pdfs example_env PDFProcessor_init example_world ''789''
       = (Inr False, PDFProcessor_init, example_world)"
proof -
  have "process_company_pdfs example_env PDFProcessor_init example_world ''99999999''
       = (Inr False, PDFProcessor_init, example_world)"
    using example_no_files by (rule process_company_pdfs_no_files)
  moreover have "process_company_pdfs example_env PDFProcessor_init example_world ''789''
       = (Inr False, PDFProcessor_init, example_world)"
    using example_blank_files example_blank_pages by (rule process_company_pdfs_no_pages)
  ultimately show ?thesis
    using example_no_files example_blank_files example_blank_pages by (intro conjI)
qed





lemma example_world_absent: "\<not> os_path_exists example_env example_world ''/srv/vector_store/00445790''"
  by (simp add: example_exists_def example_store_components)
    (simp add: example_world_def)




section \<open>Properties of the answerer\<close>

lemma get_cases:
  "get c k =
     (case map_of (items c) k of
        None \<Rightarrow> Inr (None, c)
      | Some v \<Rightarrow> Inr (Some v, c\<lparr>items := filter (\<lambda>e. fst e \<noteq> k) (items c) @ [(k, v)]\<rparr>))"
proof (cases "map_of (items c) k")
  case None
  then have "k \<notin> set (od_keys (items c))"
    by (simp add: od_keys_def map_of_eq_None_iff)
  then have "get c k = Inr (None, c)" by (rule get_miss)
  with None show ?thesis by simp
next
  case (Some v)
  then show ?thesis by (simp add: get_hit)
qed

lemma put_then_get:
  assumes "1 \<le> capacity c" and "put c k v = Inr c'"
  shows "map_of (items c') k = Some v"
proof -
  let ?f = "filter (\<lambda>e. fst e \<noteq> k) (items c)"
  have m: "map_of (?f @ [(k, v)]) k = Some v" by (rule map_of_moved)
  show ?thesis
  proof (cases "int (length ?f) + 1 > capacity c")
    case True
    with assms(1) obtain e fs where f: "?f = e # fs" by (cases ?f) auto
    then have "e \<in> set ?f" by simp
    then have "fst e \<noteq> k" by simp
    with m f have m': "map_of (fs @ [(k, v)]) k = Some v" by (cases e) simp
    from True f assms(2) have "items c' = fs @ [(k, v)]" by (auto simp add: put_eq)
    with m' show ?thesis by (simp only:)
  next
    case False
    with assms(2) have "items c' = ?f @ [(k, v)]" by (auto simp add: put_eq)
    with m show ?thesis by (simp only:)
  qed
qed

lemma run_chain_Some:
  "vector_store pr = Some vs \<Longrightarrow> run_chain E pr w q company = (qa_chain_invoke E vs q, pr, w)"
  by (simp add: run_chain_def setup_and_invoke_def)

lemma run_chain_None:
  "vector_store pr = None \<Longrightarrow>
     run_chain E pr w q company = (Inr (''No data available for company '' @ company @ ''.''), pr, w)"
  by (simp add: run_chain_def)

lemma answer_question_hit:
  assumes "company \<noteq> []" and "map_of (items (company_vector_stores pr)) company = Some vs"
  shows "answer_question E pr w q company =
           (qa_chain_invoke E vs q,
            pr\<lparr>company_vector_stores := (company_vector_stores pr)
                  \<lparr>items := filter (\<lambda>e. fst e \<noteq> company) (items (company_vector_stores pr))
                             @ [(company, vs)]\<rparr>,
               vector_store := Some vs\<rparr>,
            w)"
  using assms by (simp add: answer_question_def get_cases run_chain_Some)

lemma answer_question_disk:
  assumes "company \<noteq> []" and "map_of (items (company_vector_stores pr)) company = None"
    and "os_path_exists E w (get_company_vector_store_path E company)"
    and "FAISS_load_local E w (get_company_vector_store_path E company) = Inr vs"
  shows "\<exists>c. put (company_vector_stores pr) company vs = Inr c
           \<and> answer_question E pr w q company
               = (qa_chain_invoke E vs q,
                  pr\<lparr>company_vector_stores := c, vector_store := Some vs\<rparr>, w)"
proof -
  obtain c where c: "put (company_vector_stores pr) company vs = Inr c"
    using put_total [of "company_vector_stores pr" company vs] by blast
  have "load_and_cache E pr w (get_company_vector_store_path E company) company
          = Inr (pr\<lparr>company_vector_stores := c, vector_store := Some vs\<rparr>)"
    by (simp add: load_and_cache_def assms(4) c)
  with assms(1,2,3) c show ?thesis
    by (simp add: answer_question_def get_cases run_chain_Some)
qed

text \<open>The condition under which the builder is called.\<close>

lemma load_and_cache_fails:
  "FAISS_load_local E w p = Inl e \<Longrightarrow> load_and_cache E pr w p company = Inl e"
  by (simp add: load_and_cache_def)

lemma answer_question_rebuild:
  assumes "company \<noteq> []" and "map_of (items (company_vector_stores pr)) company = None"
    and "\<not> os_path_exists E w (get_company_vector_store_path E company)
         \<or> FAISS_load_local E w (get_company_vector_store_path E company) = Inl e"
    and "pr1 = fst (snd (process_company_pdfs E pr w company))"
    and "w1 = snd (snd (process_company_pdfs E pr w company))"
  shows "answer_question E pr w q company =
     (case fst (process_company_pdfs E pr w company) of
        Inl x \<Rightarrow> (Inl x, pr1, w1)
      | Inr success \<Rightarrow>
          if os_path_exists E w (get_company_vector_store_path E company) then
            (case map_of (items (company_vector_stores pr1)) company of
               None \<Rightarrow>
                 (Inr (''Failed to process PDFs for company '' @ company @ ''.''),
                  pr1\<lparr>vector_store := None\<rparr>, w1)
             | Some vs \<Rightarrow>
                 (qa_chain_invoke E vs q,
                  pr1\<lparr>company_vector_stores := (company_vector_stores pr1)
                         \<lparr>items := filter (\<lambda>e. fst e \<noteq> company)
                                     (items (company_vector_stores pr1))
                                    @ [(company, vs)]\<rparr>,
                      vector_store := Some vs\<rparr>, w1))
          else if success then
            (case map_of (items (company_vector_stores pr1)) company of
               None \<Rightarrow>
                 (Inr (''No data available for company '' @ company @ ''.''),
                  pr1\<lparr>vector_store := None\<rparr>, w1)
             | Some vs \<Rightarrow>
                 (qa_chain_invoke E vs q,
                  pr1\<lparr>company_vector_stores := (company_vector_stores pr1)
                         \<lparr>items := filter (\<lambda>e. fst e \<noteq> company)
                                     (items (company_vector_stores pr1))
                                    @ [(company, vs)]\<rparr>,
                      vector_store := Some vs\<rparr>, w1))
          else
            (Inr (''No PDFs found or processing failed for company '' @ company
                  @ ''. Please upload PDFs first.''), pr1, w1))"
proof -
  obtain s where r: "process_company_pdfs E pr w company = (s, pr1, w1)"
    using assms(4,5) by (cases "process_company_pdfs E pr w company") simp
  show ?thesis
  proof (cases "os_path_exists E w (get_company_vector_store_path E company)")
    case True
    with assms(3) have "FAISS_load_local E w (get_company_vector_store_path E company) = Inl e"
      by simp
    then have l: "load_and_cache E pr w (get_company_vector_store_path E company) company = Inl e"
      by (rule load_and_cache_fails)
    show ?thesis
      using assms(1,2) l r True
      by (simp add: answer_question_def get_cases Let_def run_chain_Some run_chain_None
          split: option.splits sum.splits)
  next
    case False
    show ?thesis
      using assms(1,2) r False
      by (simp add: answer_question_def get_cases Let_def run_chain_Some run_chain_None
          split: option.splits sum.splits)
  qed
qed


lemma rebuild_condition:
  assumes "\<not> (os_path_exists E w p \<and> (\<exists>vs. FAISS_load_local E w p = Inr vs))"
  shows "\<exists>e. \<not> os_path_exists E w p \<or> FAISS_load_local E w p = Inl e"
proof (cases "FAISS_load_local E w p")
  case (Inl e)
  then show ?thesis by blast
next
  case (Inr vs)
  with assms show ?thesis by blast
qed

lemma answer_question_rebuild_raises:
  assumes "company \<noteq> []" and "map_of (items (company_vector_stores pr)) company = None"
    and "\<not> os_path_exists E w (get_company_vector_store_path E company)
         \<or> FAISS_load_local E w (get_company_vector_store_path E company) = Inl e"
    and "fst (process_company_pdfs E pr w company) = Inl x"
  shows "answer_question E pr w q company = (Inl x, pr, w)"
proof -
  note r = answer_question_rebuild [OF assms(1,2,3) refl refl, of q]
  from process_company_pdfs_raises [OF assms(4)]
  have "process_company_pdfs E pr w company = (Inl x, pr, w)" by simp
  then show ?thesis unfolding r by simp
qed

lemma answer_question_rebuild_failed:
  assumes "company \<noteq> []" and "map_of (items (company_vector_stores pr)) company = None"
    and "\<not> os_path_exists E w (get_company_vector_store_path E company)
         \<or> FAISS_load_local E w (get_company_vector_store_path E company) = Inl e"
    and "fst (process_company_pdfs E pr w company) = Inr False"
  shows "fst (answer_question E pr w q company) =
           Inr (if os_path_exists E w (get_company_vector_store_path E company)
                then ''Failed to process PDFs for company '' @ company @ ''.''
                else ''No PDFs found or processing failed for company '' @ company
                       @ ''. Please upload PDFs first.'')"
proof -
  note r = answer_question_rebuild [OF assms(1,2,3) refl refl, of q]
  from assms(4) have "fst (process_company_pdfs E pr w company) \<noteq> Inr True" by simp
  from process_company_pdfs_not_True [OF this] assms(2)
  have n: "map_of (items (company_vector_stores (fst (snd (process_company_pdfs E pr w company)))))
      company = None"
    by simp
  show ?thesis
  proof (cases "os_path_exists E w (get_company_vector_store_path E company)")
    case True
    show ?thesis by (simp only: r assms(4) True n if_True option.case sum.case fst_conv)
  next
    case False
    show ?thesis by (simp only: r assms(4) False if_False sum.case fst_conv)
  qed
qed

lemma process_company_pdfs_cached:
  assumes "fst (process_company_pdfs E pr w company) = Inr True"
    and "company_pdfs E w company = Inr pdfs"
    and "1 \<le> capacity (company_vector_stores pr)"
  shows "map_of (items (company_vector_stores (fst (snd (process_company_pdfs E pr w company)))))
           company = Some (company_chunks E company pdfs)"
proof -
  from process_company_pdfs_built [OF assms(1,2)] obtain c where
    c: "put (company_vector_stores pr) company (company_chunks E company pdfs) = Inr c"
    and p: "fst (snd (process_company_pdfs E pr w company)) = pr\<lparr>company_vector_stores := c\<rparr>"
    by blast
  from put_then_get [OF assms(3) c] p show ?thesis by simp
qed

lemma answer_question_rebuilt:
  assumes "company \<noteq> []" and "map_of (items (company_vector_stores pr)) company = None"
    and "\<not> os_path_exists E w (get_company_vector_store_path E company)
         \<or> FAISS_load_local E w (get_company_vector_store_path E company) = Inl e"
    and "fst (process_company_pdfs E pr w company) = Inr True"
    and "company_pdfs E w company = Inr pdfs"
    and "1 \<le> capacity (company_vector_stores pr)"
  shows "fst (answer_question E pr w q company)
           = qa_chain_invoke E (company_chunks E company pdfs) q"
proof -
  note r = answer_question_rebuild [OF assms(1,2,3) refl refl, of q]
  note c = process_company_pdfs_cached [OF assms(4,5,6)]
  show ?thesis
  proof (cases "os_path_exists E w (get_company_vector_store_path E company)")
    case True
    show ?thesis by (simp only: r assms(4) True c if_True option.case sum.case fst_conv)
  next
    case False
    show ?thesis
      by (simp only: r assms(4) False c if_True if_False option.case sum.case fst_conv)
  qed
qed

lemma answer_question_rebuild_world:
  assumes "company \<noteq> []" and "map_of (items (company_vector_stores pr)) company = None"
    and "\<not> os_path_exists E w (get_company_vector_store_path E company)
         \<or> FAISS_load_local E w (get_company_vector_store_path E company) = Inl e"
  shows "snd (snd (answer_question E pr w q company))
           = snd (snd (process_company_pdfs E pr w company))"
  unfolding answer_question_rebuild [OF assms refl refl, of q]
  by (simp split: option.splits sum.splits)

lemma answer_question_raise:
  assumes "fst (answer_question E pr w q company) = Inl x"
  shows "(\<exists>vs. vector_store (fst (snd (answer_question E pr w q company))) = Some vs
            \<and> qa_chain_invoke E vs q = Inl x)
       \<or> (company \<noteq> [] \<and> map_of (items (company_vector_stores pr)) company = None
          \<and> company_pdfs E w company = Inl x
          \<and> \<not> (os_path_exists E w (get_company_vector_store_path E company)
                \<and> (\<exists>vs. FAISS_load_local E w (get_company_vector_store_path E company) = Inr vs)))"
proof -
  let ?p = "get_company_vector_store_path E company"
  have ne: "company \<noteq> []"
    using assms by (auto simp add: answer_question_def)
  show ?thesis
  proof (cases "map_of (items (company_vector_stores pr)) company")
    case (Some vs)
    from answer_question_hit [OF ne Some, of E w q] assms show ?thesis by simp
  next
    case None
    show ?thesis
    proof (cases "os_path_exists E w ?p \<and> (\<exists>vs. FAISS_load_local E w ?p = Inr vs)")
      case True
      then obtain vs where ex: "os_path_exists E w ?p" and l: "FAISS_load_local E w ?p = Inr vs"
        by blast
      from answer_question_disk [OF ne None ex l, of q] assms show ?thesis by auto
    next
      case nd: False
      from rebuild_condition [OF nd] obtain e where
        rc: "\<not> os_path_exists E w ?p \<or> FAISS_load_local E w ?p = Inl e" by blast
      note r = answer_question_rebuild [OF ne None rc refl refl, of q]
      let ?pr1 = "fst (snd (process_company_pdfs E pr w company))"
      show ?thesis
      proof (cases "fst (process_company_pdfs E pr w company)")
        case (Inl y)
        from answer_question_rebuild_raises [OF ne None rc Inl, of q] assms
        have "y = x" by simp
        with Inl process_company_pdfs_raises [of E pr w company x]
        have "company_pdfs E w company = Inl x" by simp
        with ne None nd show ?thesis by simp
      next
        case (Inr success)
        show ?thesis
        proof (cases "map_of (items (company_vector_stores ?pr1)) company")
          case None' : None
          have "\<exists>msg. fst (answer_question E pr w q company) = Inr msg"
            unfolding r by (simp add: Inr None')
          with assms show ?thesis by simp
        next
          case (Some vs)
          show ?thesis
          proof (cases "os_path_exists E w ?p \<or> success")
            case True
            then have "answer_question E pr w q company =
                (qa_chain_invoke E vs q,
                 ?pr1\<lparr>company_vector_stores := (company_vector_stores ?pr1)
                         \<lparr>items := filter (\<lambda>e. fst e \<noteq> company)
                                     (items (company_vector_stores ?pr1))
                                    @ [(company, vs)]\<rparr>,
                      vector_store := Some vs\<rparr>,
                 snd (snd (process_company_pdfs E pr w company)))"
              unfolding r by (auto simp add: Inr Some)
            with assms show ?thesis by simp
          next
            case False
            then have "\<exists>msg. fst (answer_question E pr w q company) = Inr msg"
              unfolding r by (simp add: Inr)
            with assms show ?thesis by simp
          qed
        qed
      qed
    qed
  qed
qed


subsection \<open>The concrete installation\<close>

lemma example_built_processor:
  "fst (snd (process_company_pdfs example_env PDFProcessor_init example_world ''00445790''))
     = PDFProcessor_init\<lparr>company_vector_stores :=
         \<lparr>items = [(''00445790'',
                    company_chunks example_env ''00445790''
                      [''/srv/downloaded_pdfs/00445790/a.pdf''])],
          capacity = 5\<rparr>\<rparr>"
proof -
  from process_company_pdfs_built [OF example_build_True [of PDFProcessor_init]
      example_text_files]
  obtain c where
    c: "put (company_vector_stores PDFProcessor_init) ''00445790''
          (company_chunks example_env ''00445790'' [''/srv/downloaded_pdfs/00445790/a.pdf''])
          = Inr c"
    and p: "fst (snd (process_company_pdfs example_env PDFProcessor_init example_world ''00445790''))
          = PDFProcessor_init\<lparr>company_vector_stores := c\<rparr>"
    by blast
  from c have "c = \<lparr>items = [(''00445790'',
                    company_chunks example_env ''00445790''
                      [''/srv/downloaded_pdfs/00445790/a.pdf''])],
          capacity = 5\<rparr>"
    by (simp add: put_eq PDFProcessor_init_def LRUCache_init_def MAX_CACHE_SIZE_def)
  with p show ?thesis by simp
qed

lemma example_built_load:
  "FAISS_load_local example_env
     (snd (snd (process_company_pdfs example_env PDFProcessor_init example_world ''00445790'')))
     ''/srv/vector_store/00445790''
   = Inr (company_chunks example_env ''00445790'' [''/srv/downloaded_pdfs/00445790/a.pdf''])"
proof -
  from process_company_pdfs_built [OF example_build_True [of PDFProcessor_init]
      example_text_files]
  obtain w1 where "FAISS_save_local example_env w1
      (company_chunks example_env ''00445790'' [''/srv/downloaded_pdfs/00445790/a.pdf''])
      ''/srv/vector_store/00445790''
    = (None, snd (snd (process_company_pdfs example_env PDFProcessor_init example_world
                         ''00445790'')))"
    unfolding example_store_path by blast
  with example_save_load_law show ?thesis by (simp add: save_load_law_def)
qed

lemma example_chain:
  "qa_chain_invoke example_env
     (company_chunks example_env ''00445790'' [''/srv/downloaded_pdfs/00445790/a.pdf'']) q
     = Inr ''Net profit 5''"
  unfolding example_text_chunks
  by (simp add: qa_chain_invoke_def similarity_search_def example_env_def)

lemma example_init_miss:
  "map_of (items (company_vector_stores PDFProcessor_init)) company = None"
  by (simp add: PDFProcessor_init_def LRUCache_init_def)

lemma example_init_capacity: "1 \<le> capacity (company_vector_stores PDFProcessor_init)"
  by (simp add: PDFProcessor_init_def LRUCache_init_def MAX_CACHE_SIZE_def)

lemma example_world_no_dirs: "\<not> os_path_exists example_env example_world p \<or> path_components p = []"
  by (simp add: example_exists_def example_world_def)

lemma example_none_absent:
  "\<not> os_path_exists example_env example_world
       (get_company_vector_store_path example_env ''99999999'')"
  by (simp add: example_exists_def get_company_vector_store_path_def)
    (simp add: example_env_def example_world_def os_path_join_def path_components_def)

lemma example_null_absent:
  "\<not> os_path_exists example_env example_world
       (get_company_vector_store_path example_env [CHR ''a'', CHR 0x00, CHR ''b''])"
  by (simp add: example_exists_def get_company_vector_store_path_def has_null_def)
    (simp add: example_env_def os_path_join_def)

lemma example_text_absent:
  "\<not> os_path_exists example_env example_world
       (get_company_vector_store_path example_env ''00445790'')"
  unfolding example_store_path by (rule example_world_absent)

lemma example_save_exists:
  "FAISS_save_local example_env w vs p = (None, w') \<Longrightarrow> os_path_exists example_env w' p"
  by (auto simp add: example_save_local_def example_exists_def split: if_splits)

lemma example_built_exists:
  "os_path_exists example_env
     (snd (snd (process_company_pdfs example_env PDFProcessor_init example_world ''00445790'')))
     ''/srv/vector_store/00445790''"
proof -
  from process_company_pdfs_built [OF example_build_True [of PDFProcessor_init]
      example_text_files]
  obtain w1 where "FAISS_save_local example_env w1
      (company_chunks example_env ''00445790'' [''/srv/downloaded_pdfs/00445790/a.pdf''])
      ''/srv/vector_store/00445790''
    = (None, snd (snd (process_company_pdfs example_env PDFProcessor_init example_world
                         ''00445790'')))"
    unfolding example_store_path by blast
  then show ?thesis by (rule example_save_exists)
qed

lemma example_null_store_path:
  "get_company_vector_store_path example_env [CHR ''a'', CHR 0x00, CHR ''b'']
     = ''/srv/vector_store/'' @ [CHR ''a'', CHR 0x00, CHR ''b'']"
  by (simp add: get_company_vector_store_path_def example_env_def os_path_join_def)

lemma example_failing_chain:
  "qa_chain_invoke (example_env\<lparr>llm_invoke := (\<lambda>p. Inl (Exception ''ResourceExhausted''))\<rparr>)
     vs q = Inl (Exception ''ResourceExhausted'')"
  by (simp add: qa_chain_invoke_def example_env_def)

section \<open>Claims about the answerer\<close>

text \<open>
  C6, as the code has it. For a company number that is not empty, \<open>answer_question\<close>
  resolves the store in this order. A cache hit is used as it is: the disk is
  neither read nor written. On a miss, when the company's path exists and a store
  loads from it, the store is put in the cache and used. When the path does not
  exist or loading raises, the builder runs, and the disk afterwards is the one
  the builder left: if the builder raises, which it does when \<open>glob.glob\<close> raises,
  the method raises the same exception; if it returns \<open>False\<close> the result is a
  message, \<open>Failed to process PDFs\<close> when the path existed and \<open>No PDFs found or
  processing failed\<close> when it did not; if it returns \<open>True\<close> (and the cache can hold
  an entry) the new store is used. The method raises in two cases only: a store
  was resolved and the retriever or the language model raised on it, or the
  builder was needed and \<open>glob.glob\<close> raised in it.
\<close>

theorem answer_resolution_order:
  assumes "company \<noteq> []" and "p = get_company_vector_store_path E company"
    and "cache = company_vector_stores pr"
  shows "(map_of (items cache) company = Some vs \<longrightarrow>
            answer_question E pr w q company
              = (qa_chain_invoke E vs q,
                 pr\<lparr>company_vector_stores :=
                      cache\<lparr>items := filter (\<lambda>e. fst e \<noteq> company) (items cache) @ [(company, vs)]\<rparr>,
                    vector_store := Some vs\<rparr>,
                 w))
       \<and> (map_of (items cache) company = None \<and> os_path_exists E w p
            \<and> FAISS_load_local E w p = Inr vs \<longrightarrow>
            (\<exists>c. put cache company vs = Inr c
               \<and> answer_question E pr w q company
                   = (qa_chain_invoke E vs q,
                      pr\<lparr>company_vector_stores := c, vector_store := Some vs\<rparr>, w)))
       \<and> (map_of (items cache) company = None
            \<and> (\<not> os_path_exists E w p \<or> FAISS_load_local E w p = Inl e) \<longrightarrow>
            snd (snd (answer_question E pr w q company))
              = snd (snd (process_company_pdfs E pr w company))
            \<and> (fst (process_company_pdfs E pr w company) = Inl x \<longrightarrow>
                 answer_question E pr w q company = (Inl x, pr, w))
            \<and> (fst (process_company_pdfs E pr w company) = Inr False \<longrightarrow>
                 fst (answer_question E pr w q company)
                   = Inr (if os_path_exists E w p
                          then ''Failed to process PDFs for company '' @ company @ ''.''
                          else ''No PDFs found or processing failed for company '' @ company
                                 @ ''. Please upload PDFs first.''))
            \<and> (fst (process_company_pdfs E pr w company) = Inr True
                 \<and> company_pdfs E w company = Inr pdfs \<and> 1 \<le> capacity cache \<longrightarrow>
                 fst (answer_question E pr w q company)
                   = qa_chain_invoke E (company_chunks E company pdfs) q))
       \<and> (fst (answer_question E pr w q company) = Inl x \<longrightarrow>
            (\<exists>vs'. vector_store (fst (snd (answer_question E pr w q company))) = Some vs'
               \<and> qa_chain_invoke E vs' q = Inl x)
            \<or> (map_of (items cache) company = None \<and> company_pdfs E w company = Inl x
               \<and> \<not> (os_path_exists E w p \<and> (\<exists>vs'. FAISS_load_local E w p = Inr vs'))))"
proof (intro conjI impI)
  assume "map_of (items cache) company = Some vs"
  then show "answer_question E pr w q company
              = (qa_chain_invoke E vs q,
                 pr\<lparr>company_vector_stores :=
                      cache\<lparr>items := filter (\<lambda>e. fst e \<noteq> company) (items cache) @ [(company, vs)]\<rparr>,
                    vector_store := Some vs\<rparr>,
                 w)"
    unfolding assms(3) by (rule answer_question_hit [OF assms(1)])
next
  assume "map_of (items cache) company = None \<and> os_path_exists E w p
            \<and> FAISS_load_local E w p = Inr vs"
  then have 1: "map_of (items (company_vector_stores pr)) company = None"
    and 2: "os_path_exists E w (get_company_vector_store_path E company)"
    and 3: "FAISS_load_local E w (get_company_vector_store_path E company) = Inr vs"
    unfolding assms(2,3) by simp_all
  show "\<exists>c. put cache company vs = Inr c
               \<and> answer_question E pr w q company
                   = (qa_chain_invoke E vs q,
                      pr\<lparr>company_vector_stores := c, vector_store := Some vs\<rparr>, w)"
    unfolding assms(2,3) by (rule answer_question_disk [OF assms(1) 1 2 3])
next
  assume a: "map_of (items cache) company = None
            \<and> (\<not> os_path_exists E w p \<or> FAISS_load_local E w p = Inl e)"
  then have 1: "map_of (items (company_vector_stores pr)) company = None"
    and 2: "\<not> os_path_exists E w (get_company_vector_store_path E company)
         \<or> FAISS_load_local E w (get_company_vector_store_path E company) = Inl e"
    unfolding assms(2,3) by simp_all
  show "snd (snd (answer_question E pr w q company))
              = snd (snd (process_company_pdfs E pr w company))"
    by (rule answer_question_rebuild_world [OF assms(1) 1 2])
next
  assume a: "map_of (items cache) company = None
            \<and> (\<not> os_path_exists E w p \<or> FAISS_load_local E w p = Inl e)"
    and f: "fst (process_company_pdfs E pr w company) = Inl x"
  from a have 1: "map_of (items (company_vector_stores pr)) company = None"
    and 2: "\<not> os_path_exists E w (get_company_vector_store_path E company)
         \<or> FAISS_load_local E w (get_company_vector_store_path E company) = Inl e"
    unfolding assms(2,3) by simp_all
  show "answer_question E pr w q company = (Inl x, pr, w)"
    by (rule answer_question_rebuild_raises [OF assms(1) 1 2 f])
next
  assume a: "map_of (items cache) company = None
            \<and> (\<not> os_path_exists E w p \<or> FAISS_load_local E w p = Inl e)"
    and f: "fst (process_company_pdfs E pr w company) = Inr False"
  from a have 1: "map_of (items (company_vector_stores pr)) company = None"
    and 2: "\<not> os_path_exists E w (get_company_vector_store_path E company)
         \<or> FAISS_load_local E w (get_company_vector_store_path E company) = Inl e"
    unfolding assms(2,3) by simp_all
  show "fst (answer_question E pr w q company)
                   = Inr (if os_path_exists E w p
                          then ''Failed to process PDFs for company '' @ company @ ''.''
                          else ''No PDFs found or processing failed for company '' @ company
                                 @ ''. Please upload PDFs first.'')"
    unfolding assms(2) by (rule answer_question_rebuild_failed [OF assms(1) 1 2 f])
next
  assume a: "map_of (items cache) company = None
            \<and> (\<not> os_path_exists E w p \<or> FAISS_load_local E w p = Inl e)"
    and f: "fst (process_company_pdfs E pr w company) = Inr True
                 \<and> company_pdfs E w company = Inr pdfs \<and> 1 \<le> capacity cache"
  from a have 1: "map_of (items (company_vector_stores pr)) company = None"
    and 2: "\<not> os_path_exists E w (get_company_vector_store_path E company)
         \<or> FAISS_load_local E w (get_company_vector_store_path E company) = Inl e"
    unfolding assms(2,3) by simp_all
  from f have 3: "fst (process_company_pdfs E pr w company) = Inr True"
    and 4: "company_pdfs E w company = Inr pdfs"
    and 5: "1 \<le> capacity (company_vector_stores pr)"
    unfolding assms(3) by simp_all
  show "fst (answer_question E pr w q company)
                   = qa_chain_invoke E (company_chunks E company pdfs) q"
    by (rule answer_question_rebuilt [OF assms(1) 1 2 3 4 5])
next
  assume "fst (answer_question E pr w q company) = Inl x"
  let ?A = "\<exists>vs'. vector_store (fst (snd (answer_question E pr w q company))) = Some vs'
               \<and> qa_chain_invoke E vs' q = Inl x"
  let ?B = "map_of (items (company_vector_stores pr)) company = None
          \<and> company_pdfs E w company = Inl x
          \<and> \<not> (os_path_exists E w (get_company_vector_store_path E company)
                \<and> (\<exists>vs. FAISS_load_local E w (get_company_vector_store_path E company) = Inr vs))"
  from answer_question_raise [OF \<open>fst (answer_question E pr w q company) = Inl x\<close>]
  have "?A \<or> (company \<noteq> [] \<and> ?B)" .
  then have "?A \<or> ?B"
  proof
    assume ?A
    then show "?A \<or> ?B" by (rule disjI1)
  next
    assume "company \<noteq> [] \<and> ?B"
    then have ?B by (rule conjunct2)
    then show "?A \<or> ?B" by (rule disjI2)
  qed
  then show "(\<exists>vs'. vector_store (fst (snd (answer_question E pr w q company))) = Some vs'
               \<and> qa_chain_invoke E vs' q = Inl x)
            \<or> (map_of (items cache) company = None \<and> company_pdfs E w company = Inl x
               \<and> \<not> (os_path_exists E w p \<and> (\<exists>vs'. FAISS_load_local E w p = Inr vs')))"
    unfolding assms(2,3) .
qed


theorem answer_resolution_order_witness:
  "fst (answer_question example_env PDFProcessor_init example_world
          ''What is the net profit?'' ''99999999'')
     = Inr ''No PDFs found or processing failed for company 99999999. Please upload PDFs first.''
   \<and> fst (answer_question example_env PDFProcessor_init example_world
          ''What is the net profit?'' ''00445790'')
     = Inr ''Net profit 5''
   \<and> snd (snd (answer_question example_env PDFProcessor_init example_world
          ''What is the net profit?'' ''00445790''))
     = snd (snd (process_company_pdfs example_env PDFProcessor_init example_world ''00445790''))
   \<and> fst (answer_question example_env PDFProcessor_init
          (snd (snd (process_company_pdfs example_env PDFProcessor_init example_world ''00445790'')))
          ''What is the net profit?'' ''00445790'')
     = Inr ''Net profit 5''
   \<and> answer_question example_env
          (fst (snd (process_company_pdfs example_env PDFProcessor_init example_world ''00445790'')))
          example_world ''What is the net profit?'' ''00445790''
     = (Inr ''Net profit 5'',
        PDFProcessor_init\<lparr>company_vector_stores :=
           \<lparr>items = [(''00445790'',
                      company_chunks example_env ''00445790''
                        [''/srv/downloaded_pdfs/00445790/a.pdf''])],
            capacity = 5\<rparr>,
          vector_store := Some (company_chunks example_env ''00445790''
                                 [''/srv/downloaded_pdfs/00445790/a.pdf''])\<rparr>,
        example_world)
   \<and> answer_question example_env PDFProcessor_init example_world
          ''What is the net profit?'' [CHR ''a'', CHR 0x00, CHR ''b'']
     = (Inl (ValueError ''embedded null byte''), PDFProcessor_init, example_world)"
proof -
  let ?q = "''What is the net profit?''"
  let ?nul = "[CHR ''a'', CHR 0x00, CHR ''b'']"
  let ?chunks = "company_chunks example_env ''00445790'' [''/srv/downloaded_pdfs/00445790/a.pdf'']"
  let ?pr1 = "fst (snd (process_company_pdfs example_env PDFProcessor_init example_world ''00445790''))"
  let ?w1 = "snd (snd (process_company_pdfs example_env PDFProcessor_init example_world ''00445790''))"
  have ne: "''99999999'' \<noteq> []" "''00445790'' \<noteq> []" "?nul \<noteq> []" by simp_all
  note a = answer_resolution_order [OF ne(1) refl refl, where E = example_env
      and pr = PDFProcessor_init and w = example_world and q = ?q
      and e = "Exception ''could not open index.faiss''"]
  note b = answer_resolution_order [OF ne(2) refl refl, where E = example_env
      and pr = PDFProcessor_init and w = example_world and q = ?q
      and e = "Exception ''could not open index.faiss''"
      and pdfs = "[''/srv/downloaded_pdfs/00445790/a.pdf'']"]
  note c = answer_resolution_order [OF ne(2) refl refl, where E = example_env
      and pr = PDFProcessor_init and w = ?w1 and q = ?q and vs = ?chunks]
  note d = answer_resolution_order [OF ne(2) refl refl, where E = example_env
      and pr = ?pr1 and w = example_world and q = ?q and vs = ?chunks]
  note n = answer_resolution_order [OF ne(3) refl refl, where E = example_env
      and pr = PDFProcessor_init and w = example_world and q = ?q
      and e = "Exception ''could not open index.faiss''"
      and x = "ValueError ''embedded null byte''"]

  have nf: "fst (process_company_pdfs example_env PDFProcessor_init example_world ''99999999'')
      = Inr False"
    by (simp add: process_company_pdfs_no_files [OF example_no_files])
  have pa: "map_of (items (company_vector_stores PDFProcessor_init)) ''99999999'' = None
      \<and> (\<not> os_path_exists example_env example_world
              (get_company_vector_store_path example_env ''99999999'')
         \<or> FAISS_load_local example_env example_world
              (get_company_vector_store_path example_env ''99999999'')
            = Inl (Exception ''could not open index.faiss''))"
    by (intro conjI disjI1 example_init_miss example_none_absent)
  from a [THEN conjunct2, THEN conjunct2, THEN conjunct1, THEN mp, OF pa,
      THEN conjunct2, THEN conjunct2, THEN conjunct1, THEN mp, OF nf]
  have 1: "fst (answer_question example_env PDFProcessor_init example_world ?q ''99999999'')
     = Inr ''No PDFs found or processing failed for company 99999999. Please upload PDFs first.''"
    using example_none_absent by simp

  have pb: "map_of (items (company_vector_stores PDFProcessor_init)) ''00445790'' = None
      \<and> (\<not> os_path_exists example_env example_world
              (get_company_vector_store_path example_env ''00445790'')
         \<or> FAISS_load_local example_env example_world
              (get_company_vector_store_path example_env ''00445790'')
            = Inl (Exception ''could not open index.faiss''))"
    by (intro conjI disjI1 example_init_miss example_text_absent)
  have tb: "fst (process_company_pdfs example_env PDFProcessor_init example_world ''00445790'')
        = Inr True
      \<and> company_pdfs example_env example_world ''00445790''
        = Inr [''/srv/downloaded_pdfs/00445790/a.pdf'']
      \<and> 1 \<le> capacity (company_vector_stores PDFProcessor_init)"
    by (intro conjI example_build_True example_text_files example_init_capacity)
  from b [THEN conjunct2, THEN conjunct2, THEN conjunct1, THEN mp, OF pb,
      THEN conjunct2, THEN conjunct2, THEN conjunct2, THEN mp, OF tb]
  have 2: "fst (answer_question example_env PDFProcessor_init example_world ?q ''00445790'')
     = Inr ''Net profit 5''"
    by (simp only: example_chain)
  from b [THEN conjunct2, THEN conjunct2, THEN conjunct1, THEN mp, OF pb, THEN conjunct1]
  have 3: "snd (snd (answer_question example_env PDFProcessor_init example_world ?q ''00445790''))
     = ?w1" .

  have pc: "map_of (items (company_vector_stores PDFProcessor_init)) ''00445790'' = None
      \<and> os_path_exists example_env ?w1 (get_company_vector_store_path example_env ''00445790'')
      \<and> FAISS_load_local example_env ?w1 (get_company_vector_store_path example_env ''00445790'')
        = Inr ?chunks"
    unfolding example_store_path
    by (intro conjI example_init_miss example_built_exists example_built_load)
  from c [THEN conjunct2, THEN conjunct1, THEN mp, OF pc]
  obtain c' where "answer_question example_env PDFProcessor_init ?w1 ?q ''00445790''
         = (qa_chain_invoke example_env ?chunks ?q,
            PDFProcessor_init\<lparr>company_vector_stores := c', vector_store := Some ?chunks\<rparr>, ?w1)"
    by (elim exE conjE)
  then have "fst (answer_question example_env PDFProcessor_init ?w1 ?q ''00445790'')
      = qa_chain_invoke example_env ?chunks ?q"
    by (simp only: fst_conv)
  then have 4: "fst (answer_question example_env PDFProcessor_init ?w1 ?q ''00445790'')
     = Inr ''Net profit 5''"
    by (simp only: example_chain)

  have pd: "map_of (items (company_vector_stores ?pr1)) ''00445790'' = Some ?chunks"
    unfolding example_built_processor by simp
  from d [THEN conjunct1, THEN mp, OF pd]
  have 5: "answer_question example_env ?pr1 example_world ?q ''00445790''
     = (Inr ''Net profit 5'',
        PDFProcessor_init\<lparr>company_vector_stores :=
           \<lparr>items = [(''00445790'', ?chunks)], capacity = 5\<rparr>,
          vector_store := Some ?chunks\<rparr>,
        example_world)"
    unfolding example_built_processor example_chain by simp

  have pn: "map_of (items (company_vector_stores PDFProcessor_init)) ?nul = None
      \<and> (\<not> os_path_exists example_env example_world
              (get_company_vector_store_path example_env ?nul)
         \<or> FAISS_load_local example_env example_world
              (get_company_vector_store_path example_env ?nul)
            = Inl (Exception ''could not open index.faiss''))"
    by (intro conjI disjI1 example_init_miss example_null_absent)
  have rn: "fst (process_company_pdfs example_env PDFProcessor_init example_world ?nul)
      = Inl (ValueError ''embedded null byte'')"
    by (simp only: process_company_pdfs_glob_raises [OF ne(3) example_null_files] fst_conv)
  from n [THEN conjunct2, THEN conjunct2, THEN conjunct1, THEN mp, OF pn,
      THEN conjunct2, THEN conjunct1, THEN mp, OF rn]
  have 6: "answer_question example_env PDFProcessor_init example_world ?q ?nul
     = (Inl (ValueError ''embedded null byte''), PDFProcessor_init, example_world)" .
  from 1 2 3 4 5 6 show ?thesis by (intro conjI)
qed

text \<open>
  C6, as stated, fails: with the store of company \<open>00445790\<close> in the cache, as the
  build leaves it, and a language model that raises, \<open>answer_question\<close> raises the
  model's exception instead of returning a text.
\<close>

theorem answer_raises_on_provider_failure:
  "fst (snd (process_company_pdfs example_env PDFProcessor_init example_world ''00445790''))
     = PDFProcessor_init\<lparr>company_vector_stores :=
         \<lparr>items = [(''00445790'',
                    company_chunks example_env ''00445790''
                      [''/srv/downloaded_pdfs/00445790/a.pdf''])],
          capacity = 5\<rparr>\<rparr>
   \<and> fst (answer_question
            (example_env\<lparr>llm_invoke := (\<lambda>p. Inl (Exception ''ResourceExhausted''))\<rparr>)
            (PDFProcessor_init\<lparr>company_vector_stores :=
               \<lparr>items = [(''00445790'',
                          company_chunks example_env ''00445790''
                            [''/srv/downloaded_pdfs/00445790/a.pdf''])],
                capacity = 5\<rparr>\<rparr>)
            example_world ''What is the net profit?'' ''00445790'')
     = Inl (Exception ''ResourceExhausted'')"
proof -
  let ?chunks = "company_chunks example_env ''00445790'' [''/srv/downloaded_pdfs/00445790/a.pdf'']"
  let ?pr = "PDFProcessor_init\<lparr>company_vector_stores :=
         \<lparr>items = [(''00445790'', ?chunks)], capacity = 5\<rparr>\<rparr>"
  let ?E = "example_env\<lparr>llm_invoke := (\<lambda>p. Inl (Exception ''ResourceExhausted''))\<rparr>"
  have ne: "''00445790'' \<noteq> []" by simp
  have m: "map_of (items (company_vector_stores ?pr)) ''00445790'' = Some ?chunks"
    by simp
  from answer_question_hit [OF ne m, of ?E example_world "''What is the net profit?''"]
  have "fst (answer_question ?E ?pr example_world ''What is the net profit?'' ''00445790'')
     = Inl (Exception ''ResourceExhausted'')"
    by (simp only: fst_conv example_failing_chain)
  with example_built_processor show ?thesis by (intro conjI)
qed

section \<open>Tenant isolation\<close>

subsection \<open>Tagged chunks\<close>

lemma tagged_append: "tagged c (xs @ ys) = (tagged c xs \<and> tagged c ys)"
  by (simp add: tagged_def)






subsection \<open>The cache\<close>





subsection \<open>The disk\<close>



subsection \<open>The builder and the answerer keep the partition\<close>

lemma partitioned_vector_store [simp]:
  "partitioned E (pr\<lparr>vector_store := x\<rparr>) w = partitioned E pr w"
  by (simp add: partitioned_def)










subsection \<open>The concrete installation\<close>








section \<open>Claims about tenant isolation\<close>





end
